theory Spec2Isabelle
  imports
    Complex_Main
    "HOL-Library.Sublist"
    "HOL-Library.Extended_Nat"
    "HOL-Library.Product_Lexorder"
    "HOL-Library.List_Lexorder"
    "HOL-Library.Char_ord"
begin

section \<open>Yakima dashboard: the data-reconciliation logic of \<^verbatim>\<open>src/app.js\<close>\<close>

text \<open>
  The development embeds the pure data logic of the dashboard script: the time-series
  utilities, the provider parsers, the per-station provider fallback and the refresh
  guard. Conventions of the embedding:

  \<^item> a JavaScript number that carries a measurement is a real number. In
    \<open>getTrend\<close>, whose answer depends on the last bit of a quotient, every arithmetic
    operation rounds its result to the nearest double, as the language does
    (\<open>double\<close> below); the parsers keep the exact value of what they read and
    convert. \<open>NaN\<close> only arises from \<open>parseFloat\<close> and from invalid dates, and is
    the value \<open>None\<close> there. Overflow to an infinite value is not part of the model;
  \<^item> a point in time (\<open>Date\<close>) is its epoch value in milliseconds, an \<open>int\<close>;
  \<^item> array lengths and indices are natural numbers;
  \<^item> a string is a list of 8-bit code units;
  \<^item> what the script obtains from its host (the clock, the parsing of dates, the
    network, the page) is a parameter of the function that uses it. The calendar date
    of an instant in Los Angeles, which the point-forecast parser asks of the host, is
    modelled in full.
\<close>

subsection \<open>Samples\<close>

text \<open>The object \<^verbatim>\<open>{ time: Date, value: number }\<close> every parser emits.\<close>

record sample =
  time :: int
  val :: real

subsection \<open>Double arithmetic\<close>

text \<open>
  \<open>double x\<close> is the IEEE 754 binary64 number nearest to \<open>x\<close>, ties to the even
  significand: with \<open>e\<close> the binary exponent of \<open>x\<close> (at least -1022, below which the
  spacing stays that of the subnormal numbers) the doubles near \<open>x\<close> are the multiples
  of \<open>2 powr (e - 52)\<close>. A number literal of the script denotes the double nearest to
  it, and each of \<open>+\<close>, \<open>-\<close>, \<open>*\<close>, \<open>/\<close> returns the double nearest to the exact
  result of the operation.
\<close>

definition round_even :: "real \<Rightarrow> int" where
  "round_even y =
     (let f = \<lfloor>y\<rfloor> in
      if y - of_int f < 1 / 2 then f
      else if y - of_int f > 1 / 2 then f + 1
      else if even f then f else f + 1)"

definition double :: "real \<Rightarrow> real" where
  "double x =
     (if x = 0 then 0
      else let e = max \<lfloor>log 2 \<bar>x\<bar>\<rfloor> (- 1022);
               u = 2 powr (of_int e - 52)
           in u * of_int (round_even (x / u)))"

definition fadd :: "real \<Rightarrow> real \<Rightarrow> real" where
  "fadd a b = double (a + b)"

definition fsub :: "real \<Rightarrow> real \<Rightarrow> real" where
  "fsub a b = double (a - b)"

definition fmul :: "real \<Rightarrow> real \<Rightarrow> real" where
  "fmul a b = double (a * b)"

definition fdiv :: "real \<Rightarrow> real \<Rightarrow> real" where
  "fdiv a b = double (a / b)"

subsection \<open>\<^verbatim>\<open>downsample\<close> (app.js, lines 148--153)\<close>

text \<open>
  \<^verbatim>\<open>
  function downsample(arr, maxCount) {
    if (!arr || arr.length <= maxCount) return arr;
    const step = Math.ceil(arr.length / maxCount);
    return arr.filter((_, i) => i % step === 0);
  }
  \<close>
  \<open>maxCount\<close> is a count, a natural number. When it is zero and the array is not
  empty, \<open>arr.length / maxCount\<close> is \<open>Infinity\<close>, so is its ceiling, and
  \<open>i % Infinity\<close> is \<open>i\<close>: the step is an extended natural number.
\<close>

definition ceil_div :: "nat \<Rightarrow> nat \<Rightarrow> enat" where
  \<comment> \<open>\<open>Math.ceil(a / b)\<close> for \<open>a > 0\<close>\<close>
  "ceil_div a b = (if b = 0 then \<infinity> else enat ((a + b - 1) div b))"

definition js_rem :: "nat \<Rightarrow> enat \<Rightarrow> nat" where
  \<comment> \<open>\<open>i % step\<close> for a step that is positive or \<open>Infinity\<close>\<close>
  "js_rem i step = (case step of enat n \<Rightarrow> i mod n | \<infinity> \<Rightarrow> i)"

definition filter_index :: "('a \<Rightarrow> nat \<Rightarrow> bool) \<Rightarrow> 'a list \<Rightarrow> 'a list" where
  \<comment> \<open>\<open>Array.prototype.filter\<close> with the two-argument callback \<open>(element, index)\<close>\<close>
  "filter_index p xs = map fst (filter (\<lambda>(x, i). p x i) (zip xs [0..<length xs]))"

definition downsample :: "'a list \<Rightarrow> nat \<Rightarrow> 'a list" where
  "downsample arr maxCount =
     (if length arr \<le> maxCount then arr
      else let step = ceil_div (length arr) maxCount
           in filter_index (\<lambda>_ i. js_rem i step = 0) arr)"

subsection \<open>\<^verbatim>\<open>getLatestValue\<close> and \<^verbatim>\<open>getTrend\<close> (app.js, lines 128--146)\<close>

text \<open>
  \<^verbatim>\<open>
  function getLatestValue(values) {
    if (!values || values.length === 0) return null;
    return values.reduce((best, v) => (v.time > best.time ? v : best));
  }
  \<close>
  \<open>reduce\<close> without an initial value starts from the first element and folds the rest
  from the left.
\<close>

definition getLatestValue :: "sample list \<Rightarrow> sample option" where
  "getLatestValue values =
     (case values of
        [] \<Rightarrow> None
      | v # vs \<Rightarrow> Some (foldl (\<lambda>best v. if time v > time best then v else best) v vs))"

text \<open>
  \<^verbatim>\<open>
  function getTrend(values, hoursBack = 24) {
    if (!values || values.length < 2) return 'stable';
    const latest = getLatestValue(values);
    if (!latest) return 'stable';
    const cutoff = latest.time.getTime() - hoursBack * 3600000;
    const past   = values
      .filter(v => v.time.getTime() <= cutoff)
      .sort((a, b) => b.time - a.time)[0];
    if (!past || past.value === 0) return 'stable';
    const pct = (latest.value - past.value) / past.value;
    if (pct >  0.10) return 'rising';
    if (pct < -0.10) return 'falling';
    return 'stable';
  }
  \<close>
  \<open>Array.prototype.sort\<close> is stable, as is insertion sort on the key \<open>- time\<close>;
  element 0 of an empty array is \<open>undefined\<close>, here \<open>None\<close>. The only caller
  passes no \<open>hoursBack\<close>, so the default 24 applies.
\<close>

datatype trend = Stable | Rising | Falling

definition pastSample :: "sample list \<Rightarrow> int \<Rightarrow> sample option" where
  "pastSample values cutoff =
     (case sort_key (\<lambda>v. - time v) (filter (\<lambda>v. time v \<le> cutoff) values) of
        [] \<Rightarrow> None
      | p # _ \<Rightarrow> Some p)"

definition getTrend :: "sample list \<Rightarrow> int \<Rightarrow> trend" where
  "getTrend values hoursBack =
     (if length values < 2 then Stable
      else case getLatestValue values of
        None \<Rightarrow> Stable
      | Some latest \<Rightarrow>
          let cutoff = time latest - hoursBack * 3600000 in
          (case pastSample values cutoff of
             None \<Rightarrow> Stable
           | Some past \<Rightarrow>
               if val past = 0 then Stable
               else let pct = fdiv (fsub (val latest) (val past)) (val past) in
                 if pct > double (1 / 10) then Rising
                 else if pct < - double (1 / 10) then Falling
                 else Stable))"

text \<open>
  The trend classification as the specification words it, for comparison with
  \<open>getTrend\<close>: the reference sample is the most recent one at or before
  \<open>now - 24h\<close>, where \<open>now\<close> is the current time.
\<close>

definition getTrend_spec :: "int \<Rightarrow> sample list \<Rightarrow> trend" where
  "getTrend_spec now values =
     (if length values < 2 then Stable
      else case getLatestValue values of
        None \<Rightarrow> Stable
      | Some latest \<Rightarrow>
          (case pastSample values (now - 24 * 3600000) of
             None \<Rightarrow> Stable
           | Some past \<Rightarrow>
               if val past = 0 then Stable
               else let pct = fdiv (fsub (val latest) (val past)) (val past) in
                 if pct > double (1 / 10) then Rising
                 else if pct < - double (1 / 10) then Falling
                 else Stable))"

subsection \<open>Nearest-time alignment in \<^verbatim>\<open>createHydrograph\<close> (app.js, lines 672--683)\<close>

text \<open>
  \<^verbatim>\<open>
  let tData = null;
  if (waterTemp.length > 0) {
    const sortedT = [...waterTemp].sort((a, b) => a.time - b.time);
    const aligned = ds.map(dp => {
      const nearest = sortedT.reduce((best, tv) =>
        Math.abs(tv.time - dp.time) < Math.abs(best.time - dp.time) ? tv : best
      );
      return Math.abs(nearest.time - dp.time) < 4 * 3600000 ? nearest.value : null;
    });
    tData = [...aligned, ...Array(fcastCount).fill(null)];
  }
  \<close>
  \<open>ds\<close> is the downsampled discharge series and \<open>fcastCount\<close> the number of forecast
  slots appended to the chart. \<open>reduce\<close> starts from the first element of the sorted
  series; the series is not empty under the guard, so the empty branch of the case
  below is never taken (lemma \<open>tData_defined\<close>).
\<close>

definition nearest :: "sample \<Rightarrow> sample list \<Rightarrow> sample \<Rightarrow> sample" where
  "nearest t ts dp =
     foldl (\<lambda>best tv. if \<bar>time tv - time dp\<bar> < \<bar>time best - time dp\<bar> then tv else best) t ts"

definition tData :: "sample list \<Rightarrow> sample list \<Rightarrow> nat \<Rightarrow> real option list option" where
  "tData wtemp ds fcastCount =
     (if length wtemp > 0 then
        (case sort_key time wtemp of
           [] \<Rightarrow> None
         | t # ts \<Rightarrow>
             let aligned =
               map (\<lambda>dp. let n = nearest t ts dp
                         in if \<bar>time n - time dp\<bar> < 4 * 3600000 then Some (val n) else None) ds
             in Some (aligned @ replicate fcastCount None))
      else None)"

subsection \<open>Strings and the built-ins the parsers call\<close>

text \<open>
  A string is a list of code units below 256. \<open>split\<close> with a one-character separator
  always returns at least one piece.
\<close>

fun split_acc :: "char \<Rightarrow> string \<Rightarrow> string \<Rightarrow> string list" where
  "split_acc sep acc [] = [rev acc]"
| "split_acc sep acc (c # cs) =
     (if c = sep then rev acc # split_acc sep [] cs else split_acc sep (c # acc) cs)"

definition split :: "char \<Rightarrow> string \<Rightarrow> string list" where
  \<comment> \<open>\<open>s.split(sep)\<close>\<close>
  "split sep s = split_acc sep [] s"

definition is_space :: "char \<Rightarrow> bool" where
  \<comment> \<open>white space and line terminators: TAB, LF, VT, FF, CR, SP, NBSP\<close>
  "is_space c \<longleftrightarrow>
     c \<in> set [CHR 0x09, CHR 0x0A, CHR 0x0B, CHR 0x0C, CHR 0x0D, CHR 0x20, CHR 0xA0]"

definition trim :: "string \<Rightarrow> string" where
  \<comment> \<open>\<open>s.trim()\<close>\<close>
  "trim s = rev (dropWhile is_space (rev (dropWhile is_space s)))"

definition upper_case :: string where
  "upper_case = ''ABCDEFGHIJKLMNOPQRSTUVWXYZ'' @
     [CHR 0xC0, CHR 0xC1, CHR 0xC2, CHR 0xC3, CHR 0xC4, CHR 0xC5, CHR 0xC6, CHR 0xC7,
      CHR 0xC8, CHR 0xC9, CHR 0xCA, CHR 0xCB, CHR 0xCC, CHR 0xCD, CHR 0xCE, CHR 0xCF,
      CHR 0xD0, CHR 0xD1, CHR 0xD2, CHR 0xD3, CHR 0xD4, CHR 0xD5, CHR 0xD6,
      CHR 0xD8, CHR 0xD9, CHR 0xDA, CHR 0xDB, CHR 0xDC, CHR 0xDD, CHR 0xDE]"

definition lower_case :: string where
  "lower_case = ''abcdefghijklmnopqrstuvwxyz'' @
     [CHR 0xE0, CHR 0xE1, CHR 0xE2, CHR 0xE3, CHR 0xE4, CHR 0xE5, CHR 0xE6, CHR 0xE7,
      CHR 0xE8, CHR 0xE9, CHR 0xEA, CHR 0xEB, CHR 0xEC, CHR 0xED, CHR 0xEE, CHR 0xEF,
      CHR 0xF0, CHR 0xF1, CHR 0xF2, CHR 0xF3, CHR 0xF4, CHR 0xF5, CHR 0xF6,
      CHR 0xF8, CHR 0xF9, CHR 0xFA, CHR 0xFB, CHR 0xFC, CHR 0xFD, CHR 0xFE]"

definition toLowerCase :: "string \<Rightarrow> string" where
  \<comment> \<open>\<open>s.toLowerCase()\<close> on code units below 256\<close>
  "toLowerCase s =
     map (\<lambda>c. case map_of (zip upper_case lower_case) c of None \<Rightarrow> c | Some l \<Rightarrow> l) s"

definition startsWith :: "string \<Rightarrow> string \<Rightarrow> bool" where
  \<comment> \<open>\<open>s.startsWith(p)\<close>\<close>
  "startsWith p s \<longleftrightarrow> take (length p) s = p"

definition endsWith :: "string \<Rightarrow> string \<Rightarrow> bool" where
  \<comment> \<open>\<open>s.endsWith(p)\<close>\<close>
  "endsWith p s \<longleftrightarrow> startsWith (rev p) (rev s)"

fun findIndex :: "('a \<Rightarrow> bool) \<Rightarrow> 'a list \<Rightarrow> nat option" where
  \<comment> \<open>\<open>xs.findIndex(p)\<close>; \<open>None\<close> is the result -1\<close>
  "findIndex p [] = None"
| "findIndex p (x # xs) = (if p x then Some 0 else map_option Suc (findIndex p xs))"

text \<open>
  \<open>parseFloat\<close> skips leading white space, reads an optional sign, decimal digits with
  an optional fraction (at least one digit in all) and an optional exponent, and
  ignores what follows; it returns \<open>NaN\<close> (\<open>None\<close>) when no number starts the
  string. The value is the exact decimal value. The literal \<open>Infinity\<close>, which
  JavaScript reads as an infinite number, has no real value and is \<open>None\<close> here.
\<close>

definition is_digit :: "char \<Rightarrow> bool" where
  "is_digit c \<longleftrightarrow> c \<in> set ''0123456789''"

definition digit_val :: "char \<Rightarrow> nat" where
  "digit_val c = of_char c - 48"

definition digits_val :: "string \<Rightarrow> nat" where
  "digits_val ds = foldl (\<lambda>a c. 10 * a + digit_val c) 0 ds"

definition read_sign :: "string \<Rightarrow> bool \<times> string" where
  \<comment> \<open>\<open>(negative, rest)\<close>\<close>
  "read_sign s =
     (case s of
        c # cs \<Rightarrow> if c = CHR ''-'' then (True, cs) else if c = CHR ''+'' then (False, cs) else (False, s)
      | [] \<Rightarrow> (False, s))"

definition read_exponent :: "string \<Rightarrow> int" where
  \<comment> \<open>the exponent part at the head of the string, 0 when there is none\<close>
  "read_exponent s =
     (case s of
        c # cs \<Rightarrow>
          if c = CHR ''e'' \<or> c = CHR ''E'' then
            (case read_sign cs of (neg, ds) \<Rightarrow>
               let e = takeWhile is_digit ds in
               if e = [] then 0
               else if neg then - int (digits_val e) else int (digits_val e))
          else 0
      | [] \<Rightarrow> 0)"

definition parseFloat :: "string \<Rightarrow> real option" where
  "parseFloat s =
     (case read_sign (dropWhile is_space s) of (neg, s1) \<Rightarrow>
        let ip = takeWhile is_digit s1;
            s2 = dropWhile is_digit s1;
            fp = (case s2 of c # cs \<Rightarrow> if c = CHR ''.'' then takeWhile is_digit cs else [] | [] \<Rightarrow> []);
            s3 = (case s2 of c # cs \<Rightarrow> if c = CHR ''.'' then dropWhile is_digit cs else s2 | [] \<Rightarrow> s2)
        in if ip = [] \<and> fp = [] then None
           else
             let m = real (digits_val (ip @ fp)) / 10 ^ length fp;
                 e = read_exponent s3;
                 v = (if e \<ge> 0 then m * 10 ^ nat e else m / 10 ^ nat (- e))
             in Some (if neg then - v else v))"

subsection \<open>\<^verbatim>\<open>parseWindyResponse\<close> (app.js, lines 402--463)\<close>

text \<open>
  The response of the point-forecast service: parallel arrays under the keys \<open>ts\<close>,
  \<open>temp-surface\<close>, \<open>past3hprecip-surface\<close>, \<open>wind_u-surface\<close>,
  \<open>wind_v-surface\<close>, \<open>gust-surface\<close> and \<open>rh-surface\<close>. A key may be absent
  (\<open>None\<close>), and an array of measurements may hold \<open>null\<close> entries.
\<close>

record windy_raw =
  raw_ts :: "int list option"
  raw_temp :: "real option list option"
  raw_precip :: "real option list option"
  raw_wind_u :: "real option list option"
  raw_wind_v :: "real option list option"
  raw_gust :: "real option list option"
  raw_rh :: "real option list option"

definition nullish :: "'a option \<Rightarrow> 'a \<Rightarrow> 'a" where
  \<comment> \<open>\<open>x ?? d\<close>\<close>
  "nullish x d = (case x of None \<Rightarrow> d | Some y \<Rightarrow> y)"

definition item :: "'a option list \<Rightarrow> nat \<Rightarrow> 'a option" where
  \<comment> \<open>\<open>arr[i]\<close>: \<open>undefined\<close> past the end, and \<open>null\<close>, are both nullish\<close>
  "item arr i = (if i < length arr then arr ! i else None)"

text \<open>
  \<^verbatim>\<open>
  const kToF    = k  => (k  - 273.15) * 9 / 5 + 32;
  const mToIn   = m  => m  * 39.3701;
  const msToMph = ms => ms * 2.23694;
  const speed   = (u, v) => Math.sqrt((u ?? 0) * (u ?? 0) + (v ?? 0) * (v ?? 0));
  const windChill = (t, v) => (t <= 50 && v >= 3)
    ? 35.74 + 0.6215 * t - 35.75 * Math.pow(v, 0.16) + 0.4275 * t * Math.pow(v, 0.16)
    : t;
  \<close>
\<close>

definition kToF :: "real \<Rightarrow> real" where
  "kToF k = (k - 273.15) * 9 / 5 + 32"

definition mToIn :: "real \<Rightarrow> real" where
  "mToIn m = m * 39.3701"

definition msToMph :: "real \<Rightarrow> real" where
  "msToMph ms = ms * 2.23694"

definition speed :: "real option \<Rightarrow> real option \<Rightarrow> real" where
  "speed u v = sqrt (nullish u 0 * nullish u 0 + nullish v 0 * nullish v 0)"

definition windChill :: "real \<Rightarrow> real \<Rightarrow> real" where
  "windChill t v =
     (if t \<le> 50 \<and> v \<ge> 3
      then 35.74 + 0.6215 * t - 35.75 * (v powr 0.16) + 0.4275 * t * (v powr 0.16)
      else t)"

text \<open>
  \<^verbatim>\<open>
  const now = Date.now();
  let curIdx = 0;
  for (let i = 0; i < ts.length; i++) { if (ts[i] <= now) curIdx = i; }
  \<close>
\<close>

definition curIdx :: "int list \<Rightarrow> int \<Rightarrow> nat" where
  "curIdx tms now = fold (\<lambda>i cur. if tms ! i \<le> now then i else cur) [0..<length tms] 0"

record conditions =
  temp :: real
  feelsLike :: real
  windSpeed :: real
  gust :: real
  humidity :: real
  precip3h :: real

definition current_at :: "windy_raw \<Rightarrow> nat \<Rightarrow> conditions" where
  "current_at raw idx =
     (let tempK = nullish (raw_temp raw) [];
          precM = nullish (raw_precip raw) [];
          windU = nullish (raw_wind_u raw) [];
          windV = nullish (raw_wind_v raw) [];
          gustMs = nullish (raw_gust raw) [];
          rh = nullish (raw_rh raw) [];
          curTempF = kToF (nullish (item tempK idx) 273.15);
          curWindMph = msToMph (speed (item windU idx) (item windV idx));
          curGustMph = msToMph (nullish (item gustMs idx) 0);
          curRh = nullish (item rh idx) 0;
          curPrec3h = mToIn (nullish (item precM idx) 0)
      in \<lparr> temp = curTempF,
           feelsLike = windChill curTempF curWindMph,
           windSpeed = curWindMph,
           gust = curGustMph,
           humidity = curRh,
           precip3h = curPrec3h \<rparr>)"

text \<open>
  \<^verbatim>\<open>
  const months  = ['Jan','Feb','Mar','Apr','May','Jun','Jul','Aug','Sep','Oct','Nov','Dec'];
  const dayMap  = new Map();   // 'YYYY-MM-DD' -> { label, temps:[], precips:[] }
  for (let i = 0; i < ts.length; i++) {
    const key = new Date(ts[i]).toLocaleDateString('en-CA', { timeZone: 'America/Los_Angeles' });
    if (!dayMap.has(key)) {
      const [, mo, dy] = key.split('-').map(Number);
      dayMap.set(key, { label: `${months[mo - 1]} ${dy}`, temps: [], precips: [] });
    }
    dayMap.get(key).temps.push(kToF(tempK[i] ?? 273.15));
    dayMap.get(key).precips.push(mToIn(precM[i] ?? 0));
  }
  \<close>
  The key of a timestep is the calendar date of its timestamp in Los Angeles, written
  by the host as \<open>YYYY-MM-DD\<close> (\<open>toLocaleDateString\<close> below). The \<open>Map\<close> is an
  association list in insertion order.
\<close>

text \<open>
  \<open>new Date(t).toLocaleDateString('en-CA', { timeZone: 'America/Los_Angeles' })\<close> is a
  function of the host. Its model here follows the Gregorian calendar and the rules of
  the time zone database for America/Los\_Angeles from the epoch on: standard time is
  eight hours behind UTC, daylight time seven; daylight time runs

  \<^item> since 2007 from the second Sunday of March to the first Sunday of November,
  \<^item> from 1987 to 2006 from the first Sunday of April to the last Sunday of October,
  \<^item> from 1976 to 1986 and before 1974 from the last Sunday of April to the last
    Sunday of October,
  \<^item> in 1974 from 6 January and in 1975 from 23 February (both Sundays) to the last
    Sunday of October,

  and begins at 2 o'clock standard time and ends at 1 o'clock standard time (2 o'clock
  daylight time). The model is meant for timestamps from the epoch on (\<open>0 \<le> t\<close>) and
  takes the rule in force since 2007 for every later year. Days are counted from
  1 January 1969, a Wednesday; weekday 0 is Sunday.
\<close>

definition is_leap :: "nat \<Rightarrow> bool" where
  "is_leap y \<longleftrightarrow> (y mod 4 = 0 \<and> y mod 100 \<noteq> 0) \<or> y mod 400 = 0"

definition year_len :: "nat \<Rightarrow> nat" where
  "year_len y = (if is_leap y then 366 else 365)"

definition month_lens :: "nat \<Rightarrow> nat list" where
  "month_lens y = [31, if is_leap y then 29 else 28, 31, 30, 31, 30, 31, 31, 30, 31, 30, 31]"

function year_day :: "nat \<Rightarrow> nat \<Rightarrow> nat \<times> nat" where
  \<comment> \<open>the year and the day within it (from 0) of day \<open>n\<close> counted from 1 January of year \<open>y\<close>\<close>
  "year_day y n = (if n < year_len y then (y, n) else year_day (Suc y) (n - year_len y))"
  by pat_completeness auto

termination
  by (relation "measure snd") (auto simp: year_len_def)

declare year_day.simps [simp del]

fun month_day :: "nat list \<Rightarrow> nat \<Rightarrow> nat \<Rightarrow> nat \<times> nat" where
  \<comment> \<open>the month and the day of the month (from 1) of day \<open>n\<close> counted from the first day
      of month \<open>m\<close>, given the lengths of the months from \<open>m\<close> on\<close>
  "month_day [] m n = (m, Suc n)"
| "month_day (l # ls) m n = (if n < l then (m, Suc n) else month_day ls (Suc m) (n - l))"

text \<open>
  A date is its year, month and day; dates are ordered by year, then month, then day.
\<close>

type_synonym date = "nat \<times> nat \<times> nat"

definition civil :: "nat \<Rightarrow> date" where
  \<comment> \<open>year, month and day of day \<open>n\<close> counted from 1 January 1969\<close>
  "civil n =
     (case year_day 1969 n of (y, r) \<Rightarrow>
        case month_day (month_lens y) 1 r of (m, d) \<Rightarrow> (y, m, d))"

definition weekday :: "nat \<Rightarrow> nat" where
  "weekday n = (n + 3) mod 7"

definition reached :: "nat \<Rightarrow> nat \<Rightarrow> nat \<Rightarrow> nat \<Rightarrow> nat \<Rightarrow> bool" where
  \<comment> \<open>on day \<open>d\<close> of a month, weekday \<open>w\<close>, hour \<open>h\<close>: the Sunday among the days
      \<open>lo, ..., lo + 6\<close> of that month, at hour \<open>H\<close>, is not in the future\<close>
  "reached lo H d w h \<longleftrightarrow> lo + w \<le> d \<and> \<not> (w = 0 \<and> d \<le> lo + 6 \<and> h < H)"

definition dst_start :: "nat \<Rightarrow> nat \<times> nat" where
  \<comment> \<open>the month, and the first of the seven days that hold the Sunday, on which daylight
      time begins\<close>
  "dst_start y =
     (if 2007 \<le> y then (3, 8)
      else if 1987 \<le> y then (4, 1)
      else if 1976 \<le> y then (4, 24)
      else if y = 1975 then (2, 22)
      else if y = 1974 then (1, 1)
      else (4, 24))"

definition dst_end :: "nat \<Rightarrow> nat \<times> nat" where
  "dst_end y = (if 2007 \<le> y then (11, 1) else (10, 25))"

definition is_dst :: "int \<Rightarrow> bool" where
  \<comment> \<open>decided on the wall clock of standard time\<close>
  "is_dst t =
     (let loc = t - 8 * 3600000;
          n = nat (loc div 86400000 + 365);
          h = nat (loc mod 86400000 div 3600000);
          w = weekday n
      in case civil n of (y, m, d) \<Rightarrow>
           (case dst_start y of (sm, slo) \<Rightarrow> sm < m \<or> (m = sm \<and> reached slo 2 d w h))
           \<and> \<not> (case dst_end y of (em, elo) \<Rightarrow> em < m \<or> (m = em \<and> reached elo 1 d w h)))"

definition losAngelesDate :: "int \<Rightarrow> date" where
  "losAngelesDate t =
     (let loc = t - (if is_dst t then 7 else 8) * 3600000
      in civil (nat (loc div 86400000 + 365)))"

text \<open>
  The locale \<open>en-CA\<close> writes a date as the year, the month in two digits and the day
  in two digits, joined by hyphens.
\<close>

fun show_nat :: "nat \<Rightarrow> string" where
  "show_nat n =
     (if n < 10 then [''0123456789'' ! n]
      else show_nat (n div 10) @ [''0123456789'' ! (n mod 10)])"

declare show_nat.simps [simp del]

definition pad2 :: "nat \<Rightarrow> string" where
  "pad2 n = (if n < 10 then ''0'' @ show_nat n else show_nat n)"

definition dateString :: "date \<Rightarrow> string" where
  "dateString ymd = (case ymd of (y, m, d) \<Rightarrow> show_nat y @ ''-'' @ pad2 m @ ''-'' @ pad2 d)"

definition toLocaleDateString :: "int \<Rightarrow> string" where
  "toLocaleDateString t = dateString (losAngelesDate t)"

text \<open>
  \<open>key.split('-').map(Number)\<close> reads the three parts of the key back as numbers.
  \<open>Number\<close> is modelled on runs of decimal digits, which is what the parts of a key
  are; on any other string the result is \<open>None\<close>, and the label of a key that is not
  of the form above is not modelled (it is the text \<open>undefined undefined\<close> here).
\<close>

definition months :: "string list" where
  "months = [''Jan'', ''Feb'', ''Mar'', ''Apr'', ''May'', ''Jun'',
             ''Jul'', ''Aug'', ''Sep'', ''Oct'', ''Nov'', ''Dec'']"

definition Number :: "string \<Rightarrow> nat option" where
  "Number s = (if s \<noteq> [] \<and> (\<forall>c \<in> set s. is_digit c) then Some (digits_val s) else None)"

definition dayLabel :: "string \<Rightarrow> string" where
  "dayLabel key =
     (case map Number (split CHR ''-'' key) of
        _ # Some mo # Some dy # _ \<Rightarrow>
          (if 1 \<le> mo \<and> mo \<le> 12 then months ! (mo - 1) else ''undefined'') @ '' '' @ show_nat dy
      | _ \<Rightarrow> ''undefined undefined'')"

record labelled =
  label :: string

record day_group = labelled +
  temps :: "real list"
  precips :: "real list"

definition dayMap_add ::
  "int list \<Rightarrow> real option list \<Rightarrow> real option list
     \<Rightarrow> nat \<Rightarrow> (string \<times> day_group) list \<Rightarrow> (string \<times> day_group) list" where
  "dayMap_add tms tempK precM i dayMap =
     (let key = toLocaleDateString (tms ! i);
          dayMap1 =
            (if key \<in> fst ` set dayMap then dayMap
             else dayMap @ [(key, \<lparr> label = dayLabel key, temps = [], precips = [] \<rparr>)])
      in map (\<lambda>(k, v).
                if k = key
                then (k, v \<lparr> temps := temps v @ [kToF (nullish (item tempK i) 273.15)],
                            precips := precips v @ [mToIn (nullish (item precM i) 0)] \<rparr>)
                else (k, v)) dayMap1)"

definition dayMap_of ::
  "int list \<Rightarrow> real option list \<Rightarrow> real option list \<Rightarrow> (string \<times> day_group) list" where
  "dayMap_of tms tempK precM = fold (dayMap_add tms tempK precM) [0..<length tms] []"

text \<open>
  \<^verbatim>\<open>
  const daily = Array.from(dayMap.entries())
    .sort(([a], [b]) => a.localeCompare(b))
    .slice(0, 7)
    .map(([, v]) => ({
      label:  v.label,
      high:   Math.max(...v.temps),
      low:    Math.min(...v.temps),
      precip: v.precips.reduce((s, p) => s + p, 0),
    }));

  return { current, daily };
  \<close>
  \<open>Math.max()\<close> and \<open>Math.min()\<close> of no arguments are infinite; that result is
  \<open>None\<close> here. \<open>a.localeCompare(b)\<close> is the order of the host's collation; on two
  keys of the form \<open>YYYY-MM-DD\<close> it is the order of the code units, position by
  position, which is the order of strings here. \<open>sort\<close> is stable, as is the insertion
  sort \<open>sort_key\<close>.
\<close>

definition Math_max :: "real list \<Rightarrow> real option" where
  "Math_max xs = (case xs of [] \<Rightarrow> None | x # ys \<Rightarrow> Some (foldl max x ys))"

definition Math_min :: "real list \<Rightarrow> real option" where
  "Math_min xs = (case xs of [] \<Rightarrow> None | x # ys \<Rightarrow> Some (foldl min x ys))"

record daily_entry = labelled +
  high :: "real option"
  low :: "real option"
  precip :: real

record windy_out =
  current :: conditions
  daily :: "daily_entry list"

definition daily_of :: "int list \<Rightarrow> real option list \<Rightarrow> real option list \<Rightarrow> daily_entry list" where
  "daily_of tms tempK precM =
     map (\<lambda>(k, v). \<lparr> label = label v,
                      high = Math_max (temps v),
                      low = Math_min (temps v),
                      precip = foldl (+) 0 (precips v) \<rparr>)
         (take 7 (sort_key fst (dayMap_of tms tempK precM)))"

definition parseWindyResponse :: "int \<Rightarrow> windy_raw \<Rightarrow> windy_out" where
  "parseWindyResponse now raw =
     (let tms = nullish (raw_ts raw) [];
          tempK = nullish (raw_temp raw) [];
          precM = nullish (raw_precip raw) []
      in \<lparr> current = current_at raw (curIdx tms now),
           daily = daily_of tms tempK precM \<rparr>)"

subsection \<open>Stations and the application state (app.js, lines 9--95)\<close>

text \<open>
  A station's external identifiers are strings or \<open>null\<close>; a station without the key
  \<open>nwrfcId\<close> reads \<open>undefined\<close> there. Both are \<open>None\<close>. The test
  \<open>if (station.usgsId)\<close> is JavaScript truthiness: \<open>null\<close>, \<open>undefined\<close> and the
  empty string fail it.
\<close>

record place =
  name :: string
  lat :: real
  lng :: real

record station = place +
  stationId :: string
  shortName :: string
  usgsId :: "string option"
  usbrId :: "string option"
  nwrfcId :: "string option"
  nwsLid :: "string option"
  color :: string

definition truthy :: "string option \<Rightarrow> string option" where
  \<comment> \<open>the identifier when it passes \<open>if (x)\<close>\<close>
  "truthy x = (case x of None \<Rightarrow> None | Some i \<Rightarrow> if i = [] then None else Some i)"

definition STATIONS :: "station list" where
  "STATIONS =
    [\<lparr> name = ''Yakima River at Easton'', lat = 47.2457, lng = - 121.1859,
       stationId = ''easton'', shortName = ''Easton'',
       usgsId = None, usbrId = Some ''EASW'', nwrfcId = None, nwsLid = Some ''EASW1'',
       color = ''#7aa2f7'' \<rparr>,
     \<lparr> name = ''Cle Elum Reservoir Outflow'', lat = 47.2318, lng = - 121.0604,
       stationId = ''cle_res'', shortName = ''CLE Reservoir'',
       usgsId = None, usbrId = Some ''CLE'', nwrfcId = None, nwsLid = Some ''CLEW1'',
       color = ''#9d7cd8'' \<rparr>,
     \<lparr> name = ''Yakima River at Cle Elum'', lat = 47.1954, lng = - 120.9363,
       stationId = ''cle_elum'', shortName = ''Yakima @ Cle Elum'',
       usgsId = None, usbrId = Some ''YUMW'', nwrfcId = None, nwsLid = Some ''YUMW1'',
       color = ''#7dcfff'' \<rparr>,
     \<lparr> name = ''Teanaway River at Forks'', lat = 47.2582, lng = - 120.8617,
       stationId = ''teanaway'', shortName = ''Teanaway'',
       usgsId = None, usbrId = Some ''TNAW'', nwrfcId = None, nwsLid = Some ''TNAW1'',
       color = ''#9ece6a'' \<rparr>,
     \<lparr> name = ''Yakima River near Horlick'', lat = 47.0382, lng = - 120.7221,
       stationId = ''horlick'', shortName = ''Horlick'',
       usgsId = None, usbrId = Some ''YRWW'', nwrfcId = Some ''HLKW1'', nwsLid = Some ''HLKW1'',
       color = ''#e0af68'' \<rparr>,
     \<lparr> name = ''Yakima River at Umtanum'', lat = 46.8615, lng = - 120.4715,
       stationId = ''umtanum'', shortName = ''Umtanum'',
       usgsId = Some ''12484500'', usbrId = Some ''UMTW'', nwrfcId = None, nwsLid = Some ''UMTW1'',
       color = ''#f7768e'' \<rparr>]"

definition WEATHER_LOCATIONS :: "place list" where
  "WEATHER_LOCATIONS =
    [\<lparr> name = ''Cle Elum'', lat = 47.1954, lng = - 120.9363 \<rparr>,
     \<lparr> name = ''Thorp'', lat = 47.0615, lng = - 120.6793 \<rparr>,
     \<lparr> name = ''Ellensburg'', lat = 46.9965, lng = - 120.5478 \<rparr>]"

text \<open>
  What a provider returns (\<open>parseUSGSJSON\<close> adds \<open>siteName\<close>, the other parsers leave
  it out), and the reading stored per station:
  \<^verbatim>\<open>{ ...(result ?? { discharge: [], waterTemp: [], gageHeight: [] }), forecast, source }\<close>.
\<close>

record series =
  discharge :: "sample list"
  waterTemp :: "sample list"
  gageHeight :: "sample list"

record provider_data = series +
  siteName :: "string option"

record reading = provider_data +
  forecast :: "sample list"
  source :: "string option"

text \<open>
  The object \<open>state\<close>, without the chart, map and marker handles, and the two facts
  about the page that \<open>refresh\<close> writes: whether the refresh button spins, and the
  status indicator (its class and its text).
\<close>

datatype status_text =
  Initial | Fetching_data | No_data_loaded | Stations_loaded nat nat | Refresh_failed

record app =
  currentDays :: nat
  isRefreshing :: bool
  lastRefresh :: "int option"
  stationData :: "(string \<times> reading) list"
  weatherData :: "(string \<times> windy_out) list"
  spinning :: bool
  status_class :: string
  status_label :: status_text

fun assign :: "'k \<Rightarrow> 'v \<Rightarrow> ('k \<times> 'v) list \<Rightarrow> ('k \<times> 'v) list" where
  \<comment> \<open>\<open>obj[k] = v\<close> on an object with its keys in insertion order\<close>
  "assign k v [] = [(k, v)]"
| "assign k v ((k', v') # ps) = (if k' = k then (k, v) # ps else (k', v') # assign k v ps)"

subsection \<open>The world of one refresh cycle\<close>

text \<open>
  Everything \<open>refresh\<close> obtains from outside the script: the outcome of each provider
  call (\<open>Inl\<close> a rejection with its message, \<open>Inr\<close> the parsed data), which elements
  the page has, whether \<open>updateMapMarkers\<close> throws, and the clock.
\<close>

record world =
  fetchUSGS :: "string \<Rightarrow> nat \<Rightarrow> string + provider_data"
  fetchUSBR :: "string \<Rightarrow> nat \<Rightarrow> string + provider_data"
  fetchNWRFCTemp :: "string \<Rightarrow> nat \<Rightarrow> string + sample list"
  fetchNWSForecast :: "string \<Rightarrow> string + sample list"
  fetchWindy :: "real \<Rightarrow> real \<Rightarrow> string + windy_out"
  has_refresh_btn :: bool
  has_status_dot :: bool
  has_status_label :: bool
  updateMapMarkers_throws :: bool
  clock :: int

datatype completion = Normal | Threw string

text \<open>
  \<^verbatim>\<open>
  function setStatus(level, label) {
    const dot = document.getElementById('status-dot');
    const lbl = document.getElementById('status-label');
    dot.className = `status-dot ${level}`;
    lbl.textContent = label;
  }
  \<close>
  A property access on \<open>null\<close> throws a \<open>TypeError\<close>.
\<close>

definition setStatus :: "world \<Rightarrow> string \<Rightarrow> status_text \<Rightarrow> app \<Rightarrow> completion \<times> app" where
  "setStatus w level txt s =
     (if \<not> has_status_dot w then (Threw ''TypeError'', s)
      else let s = s \<lparr> status_class := ''status-dot '' @ level \<rparr>
           in if \<not> has_status_label w then (Threw ''TypeError'', s)
              else (Normal, s \<lparr> status_label := txt \<rparr>))"

subsection \<open>Station reconciliation (app.js, lines 1136--1184)\<close>

text \<open>
  \<^verbatim>\<open>
  let result = null;
  let source = null;
  if (station.usgsId) {
    try {
      const d = await fetchUSGS(station.usgsId, days);
      if (d.discharge.length > 0) { result = d; source = 'USGS'; }
    } catch (err) { console.warn(...); }
  }
  if (!result && station.usbrId) {
    try {
      const d = await fetchUSBR(station.usbrId, days);
      if (d && d.discharge.length > 0) { result = d; source = 'USBR'; }
    } catch (err) { console.info(...); }
  }
  if (result && station.nwrfcId && result.waterTemp.length === 0) {
    try {
      const twData = await fetchNWRFCTemp(station.nwrfcId, days);
      if (twData.length > 0) result.waterTemp = twData;
    } catch (err) { console.info(...); }
  }
  let forecast = [];
  if (station.nwsLid) {
    try { forecast = await fetchNWSForecast(station.nwsLid); }
    catch (err) { console.warn(...); }
  }
  state.stationData[station.id] = {
    ...(result ?? { discharge: [], waterTemp: [], gageHeight: [] }),
    forecast,
    source,
  };
  \<close>
  The pair \<open>(result, source)\<close> is threaded through the steps (as \<open>(result, src)\<close>);
  logging is not modelled.
\<close>

definition tryUSGS :: "world \<Rightarrow> nat \<Rightarrow> station \<Rightarrow> provider_data option \<times> string option" where
  "tryUSGS w days st =
     (case truthy (usgsId st) of
        None \<Rightarrow> (None, None)
      | Some i \<Rightarrow>
          (case fetchUSGS w i days of
             Inl err \<Rightarrow> (None, None)
           | Inr d \<Rightarrow> if length (discharge d) > 0 then (Some d, Some ''USGS'') else (None, None)))"

definition tryUSBR ::
  "world \<Rightarrow> nat \<Rightarrow> station \<Rightarrow> provider_data option \<times> string option
     \<Rightarrow> provider_data option \<times> string option" where
  "tryUSBR w days st rs =
     (case rs of (result, src) \<Rightarrow>
        (if result = None then
           (case truthy (usbrId st) of
              None \<Rightarrow> (result, src)
            | Some i \<Rightarrow>
                (case fetchUSBR w i days of
                   Inl err \<Rightarrow> (result, src)
                 | Inr d \<Rightarrow>
                     if length (discharge d) > 0 then (Some d, Some ''USBR'')
                     else (result, src)))
         else (result, src)))"

definition supplementTemp :: "world \<Rightarrow> nat \<Rightarrow> station \<Rightarrow> provider_data option \<Rightarrow> provider_data option" where
  "supplementTemp w days st result =
     (case result of
        None \<Rightarrow> None
      | Some r \<Rightarrow>
          (case truthy (nwrfcId st) of
             None \<Rightarrow> Some r
           | Some i \<Rightarrow>
               if length (waterTemp r) = 0 then
                 (case fetchNWRFCTemp w i days of
                    Inl err \<Rightarrow> Some r
                  | Inr twData \<Rightarrow>
                      if length twData > 0 then Some (r \<lparr> waterTemp := twData \<rparr>) else Some r)
               else Some r))"

definition fetchForecast :: "world \<Rightarrow> station \<Rightarrow> sample list" where
  "fetchForecast w st =
     (case truthy (nwsLid st) of
        None \<Rightarrow> []
      | Some i \<Rightarrow> (case fetchNWSForecast w i of Inl err \<Rightarrow> [] | Inr f \<Rightarrow> f))"

definition stationJob :: "world \<Rightarrow> nat \<Rightarrow> station \<Rightarrow> reading" where
  "stationJob w days st =
     (case tryUSBR w days st (tryUSGS w days st) of (result, src) \<Rightarrow>
        let result = supplementTemp w days st result;
            fcast = fetchForecast w st
        in (case result of
              None \<Rightarrow>
                \<lparr> discharge = [], waterTemp = [], gageHeight = [], siteName = None,
                  forecast = fcast, source = src \<rparr>
            | Some r \<Rightarrow>
                \<lparr> discharge = discharge r, waterTemp = waterTemp r, gageHeight = gageHeight r,
                  siteName = siteName r, forecast = fcast, source = src \<rparr>))"

subsection \<open>\<^verbatim>\<open>refresh\<close> (app.js, lines 1124--1222)\<close>

text \<open>
  \<^verbatim>\<open>
  async function refresh() {
    if (state.isRefreshing) return;
    state.isRefreshing = true;

    const refreshBtn = document.getElementById('refresh-btn');
    refreshBtn.classList.add('spinning');
    setStatus('loading', 'Fetching data...');

    const days = state.currentDays;

    try {
      const stationJobs = STATIONS.map(async station => { ... });
      const weatherJobs = WEATHER_LOCATIONS.map(async loc => {
        try {
          const d = await fetchWindy(loc.lat, loc.lng);
          state.weatherData[loc.name] = d;
          renderWeatherCard(loc, d);
        } catch (err) { ...; renderWeatherCard(loc, null); }
      });
      const alertJob = fetchNWSAlerts().then(renderAlerts).catch(() => {});
      await Promise.allSettled([...stationJobs, ...weatherJobs, alertJob]);

      updateMapMarkers();
      state.lastRefresh = new Date();

      const loaded = Object.values(state.stationData).filter(d => d.discharge.length > 0).length;
      const total  = STATIONS.length;
      setStatus(
        loaded === 0 ? 'error' : loaded < total ? 'warn' : 'ok',
        loaded === 0 ? 'No data loaded' : `${loaded}/${total} stations ...`,
      );
    } catch (err) {
      console.error('[refresh]', err);
      setStatus('error', 'Refresh failed');
    } finally {
      // Always clear the spinner, even if something unexpected throws
      state.isRefreshing = false;
      refreshBtn.classList.remove('spinning');
    }
  }
  \<close>
  Every job catches its provider errors and \<open>Promise.allSettled\<close> never rejects, so the
  jobs contribute their writes to \<open>state\<close> and nothing else. The rendering of cards and
  of the alert pill is not modelled. The function returns the way the call completes
  (\<open>Threw\<close>: the promise of \<open>refresh\<close> is rejected) and the state it leaves.
\<close>

definition runJobs :: "world \<Rightarrow> nat \<Rightarrow> app \<Rightarrow> app" where
  "runJobs w days s =
     s \<lparr> stationData :=
           foldl (\<lambda>m st. assign (stationId st) (stationJob w days st) m) (stationData s) STATIONS,
         weatherData :=
           foldl (\<lambda>m loc. case fetchWindy w (lat loc) (lng loc) of
                             Inl err \<Rightarrow> m
                           | Inr d \<Rightarrow> assign (name loc) d m)
                 (weatherData s) WEATHER_LOCATIONS \<rparr>"

definition refresh_try :: "world \<Rightarrow> nat \<Rightarrow> app \<Rightarrow> completion \<times> app" where
  "refresh_try w days s =
     (let s = runJobs w days s in
      if updateMapMarkers_throws w then (Threw ''Error'', s)
      else
        let s = s \<lparr> lastRefresh := Some (clock w) \<rparr>;
            loaded = length (filter (\<lambda>(_, d). length (discharge d) > 0) (stationData s));
            total = length STATIONS
        in setStatus w
             (if loaded = 0 then ''error'' else if loaded < total then ''warn'' else ''ok'')
             (if loaded = 0 then No_data_loaded else Stations_loaded loaded total) s)"

definition refresh :: "world \<Rightarrow> app \<Rightarrow> completion \<times> app" where
  "refresh w s =
     (if isRefreshing s then (Normal, s)
      else
        let s = s \<lparr> isRefreshing := True \<rparr> in
        if \<not> has_refresh_btn w then (Threw ''TypeError'', s)
        else
          let s = s \<lparr> spinning := True \<rparr> in
          (case setStatus w ''loading'' Fetching_data s of
             (Threw e, s) \<Rightarrow> (Threw e, s)
           | (Normal, s) \<Rightarrow>
               let days = currentDays s in
               (case refresh_try w days s of (c, s) \<Rightarrow>
                  (case (case c of
                           Normal \<Rightarrow> (Normal, s)
                         | Threw err \<Rightarrow> setStatus w ''error'' Refresh_failed s) of
                     (c, s) \<Rightarrow> (c, s \<lparr> isRefreshing := False, spinning := False \<rparr>)))))"

subsection \<open>\<^verbatim>\<open>parseUSBRCSV\<close> (app.js, lines 284--316)\<close>

text \<open>
  \<^verbatim>\<open>
  function parseUSBRCSV(text, stationLower) {
    const out = { discharge: [], waterTemp: [], gageHeight: [] };
    const lines = text.split('\n').map(l => l.trim()).filter(Boolean);
    if (lines.length < 2) return out;

    const headerIdx = lines.findIndex(l => l.toLowerCase().startsWith('datetime'));
    if (headerIdx < 0) return out;

    const headers = lines[headerIdx].split(',').map(h => h.trim().toLowerCase());
    const qIdx    = headers.findIndex(h => h === `${stationLower}_q` || h.endsWith('_q'));
    const twIdx   = headers.findIndex(h => h === `${stationLower}_tw` || h.endsWith('_tw'));

    for (let i = headerIdx + 1; i < lines.length; i++) {
      const cols = lines[i].split(',');
      if (cols.length < 2) continue;
      const dt = new Date(cols[0].trim());
      if (isNaN(dt.getTime())) continue;

      if (qIdx >= 0) {
        const val = parseFloat(cols[qIdx]);
        if (!isNaN(val) && val >= 0) out.discharge.push({ time: dt, value: val });
      }
      if (twIdx >= 0) {
        const valC = parseFloat(cols[twIdx]);
        if (!isNaN(valC)) {
          out.waterTemp.push({ time: dt, value: valC * 9 / 5 + 32 });
        }
      }
    }
    return out;
  }
  \<close>
  How \<open>new Date(string)\<close> reads a string that is not in the ISO format is left to the
  host (and to its time zone), so the date parser is the parameter \<open>mkDate\<close>;
  \<open>None\<close> is an invalid date. A column index past the end of a row reads
  \<open>undefined\<close>, which \<open>parseFloat\<close> turns into \<open>NaN\<close>. No operation of the function
  throws on a string argument, so it returns its result directly.
\<close>

definition parseFloat_col :: "string list \<Rightarrow> nat \<Rightarrow> real option" where
  \<comment> \<open>\<open>parseFloat(cols[i])\<close>\<close>
  "parseFloat_col cols i = (if i < length cols then parseFloat (cols ! i) else None)"

definition usbr_row ::
  "(string \<Rightarrow> int option) \<Rightarrow> nat option \<Rightarrow> nat option \<Rightarrow> series \<Rightarrow> string \<Rightarrow> series" where
  "usbr_row mkDate qIdx twIdx out line =
     (let cols = split CHR '','' line in
      if length cols < 2 then out
      else case mkDate (trim (cols ! 0)) of
        None \<Rightarrow> out
      | Some dt \<Rightarrow>
          let out =
                (case qIdx of
                   None \<Rightarrow> out
                 | Some q \<Rightarrow>
                     (case parseFloat_col cols q of
                        None \<Rightarrow> out
                      | Some v \<Rightarrow>
                          if v \<ge> 0
                          then out \<lparr> discharge := discharge out @ [\<lparr> time = dt, val = v \<rparr>] \<rparr>
                          else out))
          in (case twIdx of
                None \<Rightarrow> out
              | Some t \<Rightarrow>
                  (case parseFloat_col cols t of
                     None \<Rightarrow> out
                   | Some valC \<Rightarrow>
                       out \<lparr> waterTemp :=
                               waterTemp out @ [\<lparr> time = dt, val = valC * 9 / 5 + 32 \<rparr>] \<rparr>)))"

definition parseUSBRCSV :: "(string \<Rightarrow> int option) \<Rightarrow> string \<Rightarrow> string \<Rightarrow> series" where
  "parseUSBRCSV mkDate txt stationLower =
     (let out = \<lparr> discharge = [], waterTemp = [], gageHeight = [] \<rparr>;
          lines = filter (\<lambda>l. l \<noteq> []) (map trim (split CHR 0x0A txt))
      in if length lines < 2 then out
         else case findIndex (\<lambda>l. startsWith ''datetime'' (toLowerCase l)) lines of
           None \<Rightarrow> out
         | Some headerIdx \<Rightarrow>
             let headers = map (\<lambda>h. toLowerCase (trim h)) (split CHR '','' (lines ! headerIdx));
                 qIdx = findIndex (\<lambda>h. h = stationLower @ ''_q'' \<or> endsWith ''_q'' h) headers;
                 twIdx = findIndex (\<lambda>h. h = stationLower @ ''_tw'' \<or> endsWith ''_tw'' h) headers
             in foldl (usbr_row mkDate qIdx twIdx) out (drop (headerIdx + 1) lines))"

subsection \<open>\<^verbatim>\<open>parseUSBRCSV\<close> of the second source file (part\_000, lines 277--309)\<close>

text \<open>
  The earlier revision of the script defines the same function; its text differs from
  the one above in the encoding of two comments only. It is translated on its own.
\<close>

definition usbr_row_part000 ::
  "(string \<Rightarrow> int option) \<Rightarrow> nat option \<Rightarrow> nat option \<Rightarrow> series \<Rightarrow> string \<Rightarrow> series" where
  "usbr_row_part000 mkDate qIdx twIdx out line =
     (let cols = split CHR '','' line in
      if length cols < 2 then out
      else case mkDate (trim (cols ! 0)) of
        None \<Rightarrow> out
      | Some dt \<Rightarrow>
          let out =
                (case qIdx of
                   None \<Rightarrow> out
                 | Some q \<Rightarrow>
                     (case parseFloat_col cols q of
                        None \<Rightarrow> out
                      | Some v \<Rightarrow>
                          if v \<ge> 0
                          then out \<lparr> discharge := discharge out @ [\<lparr> time = dt, val = v \<rparr>] \<rparr>
                          else out))
          in (case twIdx of
                None \<Rightarrow> out
              | Some t \<Rightarrow>
                  (case parseFloat_col cols t of
                     None \<Rightarrow> out
                   | Some valC \<Rightarrow>
                       out \<lparr> waterTemp :=
                               waterTemp out @ [\<lparr> time = dt, val = valC * 9 / 5 + 32 \<rparr>] \<rparr>)))"

definition parseUSBRCSV_part000 :: "(string \<Rightarrow> int option) \<Rightarrow> string \<Rightarrow> string \<Rightarrow> series" where
  "parseUSBRCSV_part000 mkDate txt stationLower =
     (let out = \<lparr> discharge = [], waterTemp = [], gageHeight = [] \<rparr>;
          lines = filter (\<lambda>l. l \<noteq> []) (map trim (split CHR 0x0A txt))
      in if length lines < 2 then out
         else case findIndex (\<lambda>l. startsWith ''datetime'' (toLowerCase l)) lines of
           None \<Rightarrow> out
         | Some headerIdx \<Rightarrow>
             let headers = map (\<lambda>h. toLowerCase (trim h)) (split CHR '','' (lines ! headerIdx));
                 qIdx = findIndex (\<lambda>h. h = stationLower @ ''_q'' \<or> endsWith ''_q'' h) headers;
                 twIdx = findIndex (\<lambda>h. h = stationLower @ ''_tw'' \<or> endsWith ''_tw'' h) headers
             in foldl (usbr_row_part000 mkDate qIdx twIdx) out (drop (headerIdx + 1) lines))"

subsection \<open>\<^verbatim>\<open>parseNWRFCTempHTML\<close> (app.js, lines 350--363)\<close>

text \<open>
  \<^verbatim>\<open>
  function parseNWRFCTempHTML(html, days) {
    const cutoff = new Date(Date.now() - days * 86400000);
    const out    = [];
    const re     = /(\d{4}-\d{2}-\d{2} \d{2}:\d{2})<\/td><td align="right">(\d+\.?\d*)/g;
    let m;
    while ((m = re.exec(html)) !== null) {
      const dt  = new Date(m[1]);
      const val = parseFloat(m[2]);
      if (!isNaN(dt.getTime()) && dt >= cutoff && !isNaN(val)) {
        out.push({ time: dt, value: val });
      }
    }
    return out;
  }
  \<close>
  The pattern is matched by hand. \<open>match_at\<close> matches it at the head of a string and
  returns the two groups and the length of the match: sixteen characters in the shape
  of a timestamp, the literal cell boundary, then \<open>\d+\<close>, \<open>\.?\<close> and \<open>\d*\<close>, each
  greedy; nothing follows them in the pattern, so no backtracking takes place. Without
  the \<open>u\<close> flag \<open>\d\<close> is an ASCII digit.
\<close>

definition is_timestamp :: "string \<Rightarrow> bool" where
  \<comment> \<open>\<open>\d{4}-\d{2}-\d{2} \d{2}:\d{2}\<close>, with \<open>d\<close> for a digit in the shape\<close>
  "is_timestamp s \<longleftrightarrow>
     list_all2 (\<lambda>p c. if p = CHR ''d'' then is_digit c else c = p) ''dddd-dd-dd dd:dd'' s"

definition cell_sep :: string where
  \<comment> \<open>\<open></td><td align="right">\<close>\<close>
  "cell_sep = ''</td><td align='' @ [CHR 0x22] @ ''right'' @ [CHR 0x22] @ ''>''"

definition match_at :: "string \<Rightarrow> (string \<times> string \<times> nat) option" where
  "match_at s =
     (let m1 = take 16 s; s1 = drop 16 s in
      if \<not> is_timestamp m1 then None
      else if \<not> startsWith cell_sep s1 then None
      else
        let s2 = drop (length cell_sep) s1;
            ip = takeWhile is_digit s2;
            s3 = dropWhile is_digit s2
        in if ip = [] then None
           else
             let fp = (case s3 of
                         c # cs \<Rightarrow> if c = CHR ''.'' then c # takeWhile is_digit cs else []
                       | [] \<Rightarrow> [])
             in Some (m1, ip @ fp, 16 + length cell_sep + length (ip @ fp)))"

text \<open>
  The loop over \<open>re.exec\<close> with the \<open>g\<close> flag: the search resumes where the last
  match ended. The first argument counts the characters that still belong to the last
  match.
\<close>

fun re_exec_all :: "nat \<Rightarrow> string \<Rightarrow> (string \<times> string) list" where
  "re_exec_all k [] = []"
| "re_exec_all (Suc k) (c # cs) = re_exec_all k cs"
| "re_exec_all 0 (c # cs) =
     (case match_at (c # cs) of
        None \<Rightarrow> re_exec_all 0 cs
      | Some (m1, m2, n) \<Rightarrow> (m1, m2) # re_exec_all (n - 1) cs)"

definition nwrfc_push :: "(string \<Rightarrow> int option) \<Rightarrow> int \<Rightarrow> sample list \<Rightarrow> string \<times> string \<Rightarrow> sample list" where
  "nwrfc_push mkDate cutoff out m =
     (case m of (m1, m2) \<Rightarrow>
        (case mkDate m1 of
           None \<Rightarrow> out
         | Some dt \<Rightarrow>
             (case parseFloat m2 of
                None \<Rightarrow> out
              | Some v \<Rightarrow> if dt \<ge> cutoff then out @ [\<lparr> time = dt, val = v \<rparr>] else out)))"

definition parseNWRFCTempHTML :: "(string \<Rightarrow> int option) \<Rightarrow> int \<Rightarrow> string \<Rightarrow> nat \<Rightarrow> sample list" where
  "parseNWRFCTempHTML mkDate now html days =
     (let cutoff = now - int days * 86400000
      in foldl (nwrfc_push mkDate cutoff) [] (re_exec_all 0 html))"

section \<open>Properties\<close>

subsection \<open>Evaluating doubles\<close>

lemma double_eval:
  assumes "x \<noteq> 0" and "2 powr of_int e \<le> \<bar>x\<bar>" and "\<bar>x\<bar> < 2 powr (of_int e + 1)"
    and "- 1022 \<le> e"
  shows "double x = 2 powr (of_int e - 52) * of_int (round_even (x / 2 powr (of_int e - 52)))"
proof -
  have "0 < \<bar>x\<bar>" using assms(1) by simp
  then have "\<lfloor>log 2 \<bar>x\<bar>\<rfloor> = e"
    using assms(2,3) by (simp add: floor_log_eq_powr_iff)
  then show ?thesis using assms(1,4) by (simp add: double_def Let_def max_def)
qed

lemma double_tenth: "double (1 / 10) = 3602879701896397 / 36028797018963968"
  using double_eval [of "1 / 10" "- 4"]
  by (simp add: round_even_def Let_def powr_minus divide_simps)

subsection \<open>Decimation\<close>

lemma filter_index_nths: "filter_index (\<lambda>_ i. q i) xs = nths xs {i. q i}"
  by (simp add: filter_index_def nths_def case_prod_unfold)

lemma ceil_div_ceiling:
  assumes "0 < b"
  shows "(a + b - 1) div b = nat \<lceil>real a / real b\<rceil>"
proof -
  define q where "q = (a + b - 1) div b"
  have lo: "a \<le> q * b"
  proof -
    have "a + b - 1 < q * b + b"
      using assms dividend_less_div_times [of b "a + b - 1"] by (simp add: q_def)
    then show ?thesis using assms by simp
  qed
  have hi: "a = 0 \<or> (q - 1) * b < a"
  proof (cases "a = 0")
    case True
    then show ?thesis by simp
  next
    case False
    have "q * b \<le> a + b - 1" by (simp add: q_def)
    moreover have "0 < q" using False assms by (simp add: q_def div_greater_zero_iff)
    ultimately have "(q - 1) * b + b \<le> a + b - 1"
      by (simp add: diff_mult_distrib)
    then show ?thesis using False by simp
  qed
  have "\<lceil>real a / real b\<rceil> = int q"
  proof (cases "a = 0")
    case True
    then show ?thesis using assms by (simp add: q_def)
  next
    case False
    with hi have h: "(q - 1) * b < a" by simp
    have qpos: "0 < q" using False assms by (simp add: q_def div_greater_zero_iff)
    have "real ((q - 1) * b) < real a" using h by (simp only: of_nat_less_iff)
    then have "(real q - 1) * real b < real a" using qpos by (simp add: of_nat_diff)
    then have 1: "real q - 1 < real a / real b"
      using assms by (simp add: pos_less_divide_eq)
    have "real a \<le> real (q * b)" using lo by (simp only: of_nat_le_iff)
    then have 2: "real a / real b \<le> real q"
      using assms by (simp add: pos_divide_le_eq)
    show ?thesis using 1 2 by (intro ceiling_unique) simp_all
  qed
  then show ?thesis by (simp add: q_def)
qed

lemma card_multiples_below:
  assumes "0 < k"
  shows "card {i. i < n \<and> i mod k = 0} = (n + k - 1) div k"
proof -
  have "{i. i < n \<and> i mod k = 0} = (\<lambda>j. j * k) ` {..<(n + k - 1) div k}" (is "?L = ?R")
  proof (rule set_eqI, rule iffI)
    fix i assume "i \<in> ?L"
    then have i: "i < n" "i mod k = 0" by auto
    then have e: "i = (i div k) * k" by auto
    have "i + k \<le> n + k - 1" using i assms by simp
    then have "(i + k) div k \<le> (n + k - 1) div k" by (rule div_le_mono)
    then have "i div k < (n + k - 1) div k" using assms by simp
    with e show "i \<in> ?R" by blast
  next
    fix i assume "i \<in> ?R"
    then obtain j where j: "i = j * k" "j < (n + k - 1) div k" by auto
    then have "Suc j \<le> (n + k - 1) div k" by simp
    then have "Suc j * k \<le> ((n + k - 1) div k) * k" by (rule mult_le_mono1)
    also have "\<dots> \<le> n + k - 1" by simp
    finally have "j * k < n" using assms by simp
    with j show "i \<in> ?L" by simp
  qed
  moreover have "inj_on (\<lambda>j. j * k) {..<(n + k - 1) div k}"
    using assms by (simp add: inj_on_def)
  ultimately show ?thesis by (simp add: card_image)
qed

lemma ceil_of_ceil_le:
  assumes "0 < m" and "0 < n"
  shows "(n + (n + m - 1) div m - 1) div ((n + m - 1) div m) \<le> (m::nat)"
proof -
  define k where "k = (n + m - 1) div m"
  have "n + m - 1 < k * m + m"
    using assms dividend_less_div_times [of m "n + m - 1"] by (simp add: k_def)
  then have "n \<le> k * m" using assms by simp
  moreover have kpos: "0 < k"
    using assms by (simp add: k_def div_greater_zero_iff)
  ultimately have "n + k - 1 < (m + 1) * k" by (simp add: mult.commute)
  then have "(n + k - 1) div k < m + 1"
    using kpos by (simp add: less_mult_imp_div_less)
  then show ?thesis by (simp add: k_def)
qed

lemma downsample_long:
  assumes "maxCount < length arr" and "0 < maxCount"
  shows "downsample arr maxCount
           = nths arr {i. i mod ((length arr + maxCount - 1) div maxCount) = 0}"
  using assms by (simp add: downsample_def ceil_div_def js_rem_def filter_index_nths)

lemma downsample_zero:
  assumes "0 < length arr"
  shows "downsample arr 0 = nths arr {0}"
proof -
  have "{i. i = 0} = {0::nat}" by auto
  then show ?thesis
    using assms by (simp add: downsample_def ceil_div_def js_rem_def filter_index_nths)
qed

lemma downsample_subseq: "subseq (downsample arr maxCount) arr"
proof (cases "length arr \<le> maxCount")
  case True
  then show ?thesis by (simp add: downsample_def)
next
  case False
  then have "\<exists>N. downsample arr maxCount = nths arr N"
    by (auto simp: downsample_def Let_def filter_index_nths)
  then show ?thesis by (simp add: subseq_conv_nths)
qed

lemma downsample_length:
  assumes "0 < maxCount"
  shows "length (downsample arr maxCount) \<le> maxCount"
proof (cases "length arr \<le> maxCount")
  case True
  then show ?thesis by (simp add: downsample_def)
next
  case False
  then have long: "maxCount < length arr" by simp
  define k where "k = (length arr + maxCount - 1) div maxCount"
  have kpos: "0 < k"
    using long assms by (simp add: k_def div_greater_zero_iff)
  have "length (downsample arr maxCount) = card {i. i < length arr \<and> i mod k = 0}"
    using long assms by (simp add: downsample_long length_nths k_def)
  also have "\<dots> = (length arr + k - 1) div k"
    using kpos by (rule card_multiples_below)
  also have "\<dots> \<le> maxCount"
    unfolding k_def using assms long by (intro ceil_of_ceil_le) auto
  finally show ?thesis .
qed

text \<open>
  What the decimation guarantees. The result is always a subsequence of the input and
  is the input itself when it fits. When the input is longer than a maximum count of
  at least one, exactly the elements at the indices divisible by
  \<open>\<lceil>length s / m\<rceil>\<close> are kept, and at most \<open>m\<close> elements remain.
\<close>

lemma downsample_decimates:
  "subseq (downsample s m) s
   \<and> (length s \<le> m \<longrightarrow> downsample s m = s)
   \<and> (m < length s \<and> 0 < m \<longrightarrow>
        downsample s m = nths s {i. i mod nat \<lceil>real (length s) / real m\<rceil> = 0})
   \<and> (0 < m \<longrightarrow> length (downsample s m) \<le> m)"
proof (intro conjI impI)
  show "subseq (downsample s m) s" by (rule downsample_subseq)
  show "downsample s m = s" if "length s \<le> m"
    using that by (simp add: downsample_def)
  show "downsample s m = nths s {i. i mod nat \<lceil>real (length s) / real m\<rceil> = 0}"
    if "m < length s \<and> 0 < m"
    using that ceil_div_ceiling [of m "length s"] by (simp add: downsample_long)
  show "length (downsample s m) \<le> m" if "0 < m"
    using that by (rule downsample_length)
qed

lemma downsample_decimates_example:
  "downsample [10, 11, 12, 13, 14, 15, 16 :: int] 3 = [10, 13, 16]
   \<and> length (downsample [10, 11, 12, 13, 14, 15, 16 :: int] 3) \<le> 3
   \<and> subseq (downsample [10, 11, 12, 13, 14, 15, 16 :: int] 3) [10, 11, 12, 13, 14, 15, 16]
   \<and> downsample [10, 11 :: int] 3 = [10, 11]"
proof -
  have e: "downsample [10, 11, 12, 13, 14, 15, 16 :: int] 3 = [10, 13, 16]"
    by (simp add: downsample_def ceil_div_def js_rem_def filter_index_def upt_rec)
  note long = downsample_decimates [of "[10, 11, 12, 13, 14, 15, 16 :: int]" 3]
  have "subseq (downsample [10, 11, 12, 13, 14, 15, 16 :: int] 3) [10, 11, 12, 13, 14, 15, 16]"
    using long by (rule conjunct1)
  moreover have "length (downsample [10, 11, 12, 13, 14, 15, 16 :: int] 3) \<le> 3"
    using long [THEN conjunct2, THEN conjunct2, THEN conjunct2] by simp
  moreover have "downsample [10, 11 :: int] 3 = [10, 11]"
    using downsample_decimates [of "[10, 11 :: int]" 3] by simp
  ultimately show ?thesis using e by blast
qed


subsection \<open>Trend classification\<close>

lemma foldl_latest:
  "foldl (\<lambda>best v. if time v > time best then v else best) b vs \<in> set (b # vs)
   \<and> (\<forall>v \<in> set (b # vs). time v \<le> time (foldl (\<lambda>best v. if time v > time best then v else best) b vs))"
proof (induction vs arbitrary: b)
  case Nil
  then show ?case by simp
next
  case (Cons a vs)
  show ?case
    using Cons.IH [of "if time a > time b then a else b"]
    by (auto split: if_splits)
qed

lemma getLatestValue_Some:
  assumes "getLatestValue vs = Some l"
  shows "l \<in> set vs \<and> (\<forall>v \<in> set vs. time v \<le> time l)"
proof (cases vs)
  case Nil
  with assms show ?thesis by (simp add: getLatestValue_def)
next
  case (Cons b bs)
  with assms foldl_latest [of b bs] show ?thesis
    by (simp add: getLatestValue_def)
qed

lemma getLatestValue_None: "getLatestValue vs = None \<longleftrightarrow> vs = []"
  by (simp add: getLatestValue_def split: list.splits)

lemma pastSample_Some:
  assumes "pastSample vs c = Some p"
  shows "p \<in> set vs \<and> time p \<le> c \<and> (\<forall>v \<in> set vs. time v \<le> c \<longrightarrow> time v \<le> time p)"
proof -
  let ?cs = "filter (\<lambda>v. time v \<le> c) vs"
  let ?ss = "sort_key (\<lambda>v. - time v) ?cs"
  from assms obtain rest where ss: "?ss = p # rest"
    by (auto simp: pastSample_def split: list.splits)
  have "p \<in> set ?ss" using ss by simp
  then have mem: "p \<in> set ?cs" by simp
  have "sorted (map (\<lambda>v. - time v) ?ss)" by (rule sorted_sort_key)
  then have "\<forall>v \<in> set ?ss. - time p \<le> - time v" using ss by auto
  then have "\<forall>v \<in> set ?cs. time v \<le> time p" by simp
  with mem show ?thesis by auto
qed

lemma pastSample_None:
  assumes "pastSample vs c = None"
  shows "\<forall>v \<in> set vs. c < time v"
proof -
  from assms have "sort_key (\<lambda>v. - time v) (filter (\<lambda>v. time v \<le> c) vs) = []"
    by (auto simp: pastSample_def split: list.splits)
  then have "set (sort_key (\<lambda>v. - time v) (filter (\<lambda>v. time v \<le> c) vs)) = {}" by simp
  then have "set (filter (\<lambda>v. time v \<le> c) vs) = {}" by (simp only: set_sort)
  then show ?thesis by (auto simp: filter_empty_conv)
qed


text \<open>
  Claim C2, as the code has it. With fewer than two samples the trend is stable.
  Otherwise \<open>latest\<close> is a sample of maximal time, the cutoff is 24 hours before the
  time of \<open>latest\<close> (the clock is not read), and the reference is a sample at or before
  the cutoff that no other such sample is later than. The trend is stable when there is
  no reference or its value is zero. Otherwise the relative change is the quotient of
  \<open>latest.value - past.value\<close> by \<open>past.value\<close> in double arithmetic, the difference and
  the quotient each rounded to the nearest double, and it is compared with the double
  nearest to 0.10: the trend is rising when the change exceeds that number, falling when
  it is below its negation, and stable otherwise.
\<close>

theorem getTrend_classifies:
  "(length vs < 2 \<longrightarrow> getTrend vs 24 = Stable)
   \<and> (2 \<le> length vs \<longrightarrow>
        (\<exists>latest. getLatestValue vs = Some latest
           \<and> latest \<in> set vs \<and> (\<forall>v \<in> set vs. time v \<le> time latest)
           \<and> (case pastSample vs (time latest - 24 * 3600000) of
                 None \<Rightarrow>
                   (\<forall>v \<in> set vs. time latest - 24 * 3600000 < time v)
                   \<and> getTrend vs 24 = Stable
               | Some past \<Rightarrow>
                   past \<in> set vs \<and> time past \<le> time latest - 24 * 3600000
                   \<and> (\<forall>v \<in> set vs. time v \<le> time latest - 24 * 3600000 \<longrightarrow> time v \<le> time past)
                   \<and> getTrend vs 24 =
                       (if val past = 0 then Stable
                        else if fdiv (fsub (val latest) (val past)) (val past) > double (1 / 10)
                          then Rising
                        else if fdiv (fsub (val latest) (val past)) (val past) < - double (1 / 10)
                          then Falling
                        else Stable))))"
proof (intro conjI impI)
  show "getTrend vs 24 = Stable" if "length vs < 2"
    using that by (simp add: getTrend_def)
next
  assume len: "2 \<le> length vs"
  then have "vs \<noteq> []" by auto
  then obtain latest where l: "getLatestValue vs = Some latest"
    using getLatestValue_None [of vs] by (cases "getLatestValue vs") auto
  note lp = getLatestValue_Some [OF l]
  let ?c = "time latest - 24 * 3600000"
  have "case pastSample vs ?c of
          None \<Rightarrow> (\<forall>v \<in> set vs. ?c < time v) \<and> getTrend vs 24 = Stable
        | Some past \<Rightarrow>
            past \<in> set vs \<and> time past \<le> ?c
            \<and> (\<forall>v \<in> set vs. time v \<le> ?c \<longrightarrow> time v \<le> time past)
            \<and> getTrend vs 24 =
                (if val past = 0 then Stable
                 else if fdiv (fsub (val latest) (val past)) (val past) > double (1 / 10)
                   then Rising
                 else if fdiv (fsub (val latest) (val past)) (val past) < - double (1 / 10)
                   then Falling
                 else Stable)"
  proof (cases "pastSample vs ?c")
    case None
    with pastSample_None [OF None] len l show ?thesis
      by (simp add: getTrend_def)
  next
    case (Some past)
    with pastSample_Some [OF Some] len l show ?thesis
      by (simp add: getTrend_def Let_def)
  qed
  with l lp show "\<exists>latest. getLatestValue vs = Some latest
           \<and> latest \<in> set vs \<and> (\<forall>v \<in> set vs. time v \<le> time latest)
           \<and> (case pastSample vs (time latest - 24 * 3600000) of
                 None \<Rightarrow>
                   (\<forall>v \<in> set vs. time latest - 24 * 3600000 < time v)
                   \<and> getTrend vs 24 = Stable
               | Some past \<Rightarrow>
                   past \<in> set vs \<and> time past \<le> time latest - 24 * 3600000
                   \<and> (\<forall>v \<in> set vs. time v \<le> time latest - 24 * 3600000 \<longrightarrow> time v \<le> time past)
                   \<and> getTrend vs 24 =
                       (if val past = 0 then Stable
                        else if fdiv (fsub (val latest) (val past)) (val past) > double (1 / 10)
                          then Rising
                        else if fdiv (fsub (val latest) (val past)) (val past) < - double (1 / 10)
                          then Falling
                        else Stable))"
    by blast
qed

text \<open>
  Four runs: a change of +20 percent over one day is rising; a single sample is stable;
  from 3674.6 to 4042.06 (as doubles, the first pair of fractions below) the exact
  change is above one tenth, but the rounded quotient is the double nearest to 0.10
  itself, so the trend is stable; and from 100.1 to 110.11 (the second pair) the
  rounded quotient is two units in the last place above that double, so the trend is
  rising.
\<close>

theorem getTrend_classifies_witness:
  "2 \<le> length [\<lparr>time = 0, val = 100\<rparr>, \<lparr>time = 86400000, val = 120\<rparr>]
   \<and> getTrend [\<lparr>time = 0, val = 100\<rparr>, \<lparr>time = 86400000, val = 120\<rparr>] 24 = Rising
   \<and> getTrend [\<lparr>time = 0, val = 100\<rparr>] 24 = Stable
   \<and> getTrend [\<lparr>time = 0, val = 8080530854851379 / 2199023255552\<rparr>,
               \<lparr>time = 86400000, val = 8888583940336517 / 2199023255552\<rparr>] 24 = Stable
   \<and> getTrend [\<lparr>time = 0, val = 3521955646092083 / 35184372088832\<rparr>,
               \<lparr>time = 86400000, val = 7748302421402583 / 70368744177664\<rparr>] 24 = Rising"
proof -
  let ?vs = "[\<lparr>time = 0, val = 100\<rparr>, \<lparr>time = 86400000, val = 120\<rparr>]"
  have l: "getLatestValue ?vs = Some \<lparr>time = 86400000, val = 120\<rparr>"
    by (simp add: getLatestValue_def)
  have p: "pastSample ?vs 0 = Some \<lparr>time = 0, val = 100\<rparr>"
    by (simp add: pastSample_def)
  have len: "2 \<le> length ?vs" by simp
  have sub: "fsub 120 100 = 20"
    using double_eval [of 20 4]
    by (simp add: fsub_def round_even_def Let_def powr_minus divide_simps)
  have quo: "fdiv 20 100 = 3602879701896397 / 18014398509481984"
    using double_eval [of "1 / 5" "- 3"]
    by (simp add: fdiv_def round_even_def Let_def powr_minus divide_simps)
  from getTrend_classifies [of ?vs, THEN conjunct2, rule_format, OF len]
  have a: "getTrend ?vs 24 = Rising"
    by (simp add: l p sub quo double_tenth)
  have b: "getTrend [\<lparr>time = 0, val = 100\<rparr>] 24 = Stable"
    using getTrend_classifies [of "[\<lparr>time = 0, val = 100\<rparr>]"] by simp
  let ?ws = "[\<lparr>time = 0, val = 8080530854851379 / 2199023255552\<rparr>,
              \<lparr>time = 86400000, val = 8888583940336517 / 2199023255552\<rparr>]"
  have l': "getLatestValue ?ws = Some \<lparr>time = 86400000, val = 8888583940336517 / 2199023255552\<rparr>"
    by (simp add: getLatestValue_def)
  have p': "pastSample ?ws 0 = Some \<lparr>time = 0, val = 8080530854851379 / 2199023255552\<rparr>"
    by (simp add: pastSample_def)
  have len': "2 \<le> length ?ws" by simp
  have sub': "fsub (8888583940336517 / 2199023255552) (8080530854851379 / 2199023255552)
      = 404026542742569 / 1099511627776"
    using double_eval [of "404026542742569 / 1099511627776" 8]
    by (simp add: fsub_def round_even_def Let_def powr_minus divide_simps)
  have quo': "fdiv (404026542742569 / 1099511627776) (8080530854851379 / 2199023255552)
      = 3602879701896397 / 36028797018963968"
    using double_eval [of "808053085485138 / 8080530854851379" "- 4"]
    by (simp add: fdiv_def round_even_def Let_def powr_minus divide_simps)
  from getTrend_classifies [of ?ws, THEN conjunct2, rule_format, OF len']
  have c: "getTrend ?ws 24 = Stable"
    by (simp add: l' p' sub' quo' double_tenth)
  let ?us = "[\<lparr>time = 0, val = 3521955646092083 / 35184372088832\<rparr>,
              \<lparr>time = 86400000, val = 7748302421402583 / 70368744177664\<rparr>]"
  have l'': "getLatestValue ?us = Some \<lparr>time = 86400000, val = 7748302421402583 / 70368744177664\<rparr>"
    by (simp add: getLatestValue_def)
  have p'': "pastSample ?us 0 = Some \<lparr>time = 0, val = 3521955646092083 / 35184372088832\<rparr>"
    by (simp add: pastSample_def)
  have len'': "2 \<le> length ?us" by simp
  have sub'': "fsub (7748302421402583 / 70368744177664) (3521955646092083 / 35184372088832)
      = 704391129218417 / 70368744177664"
    using double_eval [of "704391129218417 / 70368744177664" 3]
    by (simp add: fsub_def round_even_def Let_def powr_minus divide_simps)
  have quo'': "fdiv (704391129218417 / 70368744177664) (3521955646092083 / 35184372088832)
      = 3602879701896399 / 36028797018963968"
    using double_eval [of "704391129218417 / 7043911292184166" "- 4"]
    by (simp add: fdiv_def round_even_def Let_def powr_minus divide_simps)
  from getTrend_classifies [of ?us, THEN conjunct2, rule_format, OF len'']
  have d: "getTrend ?us 24 = Rising"
    by (simp add: l'' p'' sub'' quo'' double_tenth)
  from a b c d show ?thesis by simp
qed

text \<open>
  The claim as stated measures the 24 hours back from the current time. With the clock
  at hour 25 and samples at hour 0 (value 100) and hour 23.5 (value 200), the sample at
  hour 0 lies before \<open>now - 24h\<close> and the change is +100 percent, so the claim gives rising;
  the code measures from the latest sample, finds no sample 24 hours before it, and
  returns stable.
\<close>

theorem getTrend_now_counterexample:
  "getTrend [\<lparr>time = 0, val = 100\<rparr>, \<lparr>time = 84600000, val = 200\<rparr>] 24 = Stable
   \<and> getTrend_spec 90000000 [\<lparr>time = 0, val = 100\<rparr>, \<lparr>time = 84600000, val = 200\<rparr>] = Rising"
proof -
  have sub: "fsub 200 100 = 100"
    using double_eval [of 100 6]
    by (simp add: fsub_def round_even_def Let_def powr_minus divide_simps)
  have quo: "fdiv 100 100 = 1"
    using double_eval [of 1 0]
    by (simp add: fdiv_def round_even_def Let_def powr_minus divide_simps)
  show ?thesis
    by (simp add: getTrend_def getTrend_spec_def getLatestValue_def pastSample_def
        sub quo double_tenth)
qed

subsection \<open>Nearest-time alignment\<close>

lemma nearest_minimal:
  "nearest t ts dp \<in> set (t # ts)
   \<and> (\<forall>tv \<in> set (t # ts). \<bar>time (nearest t ts dp) - time dp\<bar> \<le> \<bar>time tv - time dp\<bar>)"
proof (induction ts arbitrary: t)
  case Nil
  then show ?case by (simp add: nearest_def)
next
  case (Cons a ts)
  let ?b = "if \<bar>time a - time dp\<bar> < \<bar>time t - time dp\<bar> then a else t"
  have step: "nearest t (a # ts) dp = nearest ?b ts dp" by (simp add: nearest_def)
  from Cons.IH [of ?b] show ?case
    unfolding step by (auto split: if_splits)
qed

lemma tData_defined:
  assumes "wtemp \<noteq> []"
  obtains t ts where "sort_key time wtemp = t # ts"
proof -
  have "length (sort_key time wtemp) = length wtemp" by simp
  with assms have "sort_key time wtemp \<noteq> []" by (metis length_0_conv)
  then show ?thesis using that by (cases "sort_key time wtemp") auto
qed

text \<open>
  Claim C5. For a non-empty temperature series the aligned data has one entry per
  discharge point, followed by the forecast padding. The entry at a point is decided by
  a temperature sample of minimal absolute time difference to the point: the value of
  that sample when the difference is below four hours, a missing value otherwise.
\<close>

theorem tData_nearest:
  assumes "wtemp \<noteq> []"
  shows "\<exists>aligned. tData wtemp ds fcastCount = Some (aligned @ replicate fcastCount None)
     \<and> length aligned = length ds
     \<and> (\<forall>i < length ds. \<exists>n \<in> set wtemp.
           (\<forall>tv \<in> set wtemp. \<bar>time n - time (ds ! i)\<bar> \<le> \<bar>time tv - time (ds ! i)\<bar>)
           \<and> aligned ! i =
               (if \<bar>time n - time (ds ! i)\<bar> < 4 * 3600000 then Some (val n) else None))"
proof -
  from assms obtain t ts where s: "sort_key time wtemp = t # ts"
    by (rule tData_defined)
  have set_eq: "set (t # ts) = set wtemp"
    using s set_sort [of time wtemp] by simp
  define aligned where "aligned =
     map (\<lambda>dp. let n = nearest t ts dp
               in if \<bar>time n - time dp\<bar> < 4 * 3600000 then Some (val n) else None) ds"
  have 1: "tData wtemp ds fcastCount = Some (aligned @ replicate fcastCount None)"
    using assms s by (simp add: tData_def aligned_def)
  have 2: "length aligned = length ds" by (simp add: aligned_def)
  have 3: "\<exists>n \<in> set wtemp.
           (\<forall>tv \<in> set wtemp. \<bar>time n - time (ds ! i)\<bar> \<le> \<bar>time tv - time (ds ! i)\<bar>)
           \<and> aligned ! i =
               (if \<bar>time n - time (ds ! i)\<bar> < 4 * 3600000 then Some (val n) else None)"
    if "i < length ds" for i
  proof -
    let ?n = "nearest t ts (ds ! i)"
    from nearest_minimal [of t ts "ds ! i"]
    have "?n \<in> set wtemp"
      and "\<forall>tv \<in> set wtemp. \<bar>time ?n - time (ds ! i)\<bar> \<le> \<bar>time tv - time (ds ! i)\<bar>"
      unfolding set_eq by blast+
    moreover have "aligned ! i =
        (if \<bar>time ?n - time (ds ! i)\<bar> < 4 * 3600000 then Some (val ?n) else None)"
      using that by (simp add: aligned_def Let_def)
    ultimately show ?thesis by blast
  qed
  from 1 2 3 show ?thesis by blast
qed

text \<open>
  The two cases the claim names: with the only temperature sample five hours from the
  discharge point the entry is missing, with it three hours away the entry is its value.
\<close>

theorem tData_nearest_witness:
  "[\<lparr>time = 18000000, val = 48\<rparr>] \<noteq> []
   \<and> tData [\<lparr>time = 18000000, val = 48\<rparr>] [\<lparr>time = 0, val = 300\<rparr>] 0 = Some [None]
   \<and> tData [\<lparr>time = 10800000, val = 48\<rparr>] [\<lparr>time = 0, val = 300\<rparr>] 0 = Some [Some 48]"
proof -
  have ne: "[\<lparr>time = 18000000, val = 48\<rparr>] \<noteq> []" by simp
  from tData_nearest [OF ne, of "[\<lparr>time = 0, val = 300\<rparr>]" 0]
  have "tData [\<lparr>time = 18000000, val = 48\<rparr>] [\<lparr>time = 0, val = 300\<rparr>] 0 = Some [None]"
    by (auto simp: length_Suc_conv)
  moreover have ne': "[\<lparr>time = 10800000, val = 48\<rparr>] \<noteq> []" by simp
  from tData_nearest [OF ne', of "[\<lparr>time = 0, val = 300\<rparr>]" 0]
  have "tData [\<lparr>time = 10800000, val = 48\<rparr>] [\<lparr>time = 0, val = 300\<rparr>] 0 = Some [Some 48]"
    by (auto simp: length_Suc_conv)
  ultimately show ?thesis by simp
qed

subsection \<open>Point forecast: the current timestep\<close>

lemma curIdx_scan_Suc:
  "fold (\<lambda>i cur. if tms ! i \<le> now then i else cur) [0..<Suc n] c
     = (if tms ! n \<le> now then n
        else fold (\<lambda>i cur. if tms ! i \<le> (now::int) then i else cur) [0..<n] c)"
  by simp

lemma curIdx_scan_past:
  assumes "\<exists>i<n. tms ! i \<le> now"
  shows "fold (\<lambda>i cur. if tms ! i \<le> now then i else cur) [0..<n] 0 < n
     \<and> tms ! (fold (\<lambda>i cur. if tms ! i \<le> now then i else cur) [0..<n] 0) \<le> (now::int)
     \<and> (\<forall>j<n. tms ! j \<le> now
           \<longrightarrow> j \<le> fold (\<lambda>i cur. if tms ! i \<le> now then i else cur) [0..<n] 0)"
  using assms
proof (induction n)
  case 0
  then show ?case by simp
next
  case (Suc n)
  show ?case
  proof (cases "tms ! n \<le> now")
    case True
    then show ?thesis
      unfolding curIdx_scan_Suc by (auto simp: less_Suc_eq)
  next
    case False
    with Suc.prems have "\<exists>i<n. tms ! i \<le> now"
      by (auto simp: less_Suc_eq)
    from Suc.IH [OF this] False show ?thesis
      unfolding curIdx_scan_Suc by (auto simp: less_Suc_eq)
  qed
qed

lemma curIdx_scan_future:
  assumes "\<forall>i<n. (now::int) < tms ! i"
  shows "fold (\<lambda>i cur. if tms ! i \<le> now then i else cur) [0..<n] 0 = 0"
  using assms
proof (induction n)
  case 0
  then show ?case by simp
next
  case (Suc n)
  then have "\<not> tms ! n \<le> now" and "\<forall>i<n. now < tms ! i" by auto
  with Suc.IH show ?case unfolding curIdx_scan_Suc by simp
qed

text \<open>
  Claim C4. The current conditions are read at one index of the parallel arrays. When
  some timestep is at or before \<open>now\<close>, the index is the greatest one whose timestamp
  is at or before \<open>now\<close>; when no timestep is, the index is 0.
\<close>

theorem parseWindyResponse_current:
  "\<exists>idx.
     (if \<exists>i < length (nullish (raw_ts raw) []). nullish (raw_ts raw) [] ! i \<le> now
      then idx < length (nullish (raw_ts raw) [])
        \<and> nullish (raw_ts raw) [] ! idx \<le> now
        \<and> (\<forall>j < length (nullish (raw_ts raw) []). nullish (raw_ts raw) [] ! j \<le> now \<longrightarrow> j \<le> idx)
      else idx = 0)
     \<and> temp (current (parseWindyResponse now raw))
         = kToF (nullish (item (nullish (raw_temp raw) []) idx) 273.15)
     \<and> windSpeed (current (parseWindyResponse now raw))
         = msToMph (speed (item (nullish (raw_wind_u raw) []) idx) (item (nullish (raw_wind_v raw) []) idx))
     \<and> feelsLike (current (parseWindyResponse now raw))
         = windChill (temp (current (parseWindyResponse now raw)))
             (windSpeed (current (parseWindyResponse now raw)))
     \<and> gust (current (parseWindyResponse now raw))
         = msToMph (nullish (item (nullish (raw_gust raw) []) idx) 0)
     \<and> humidity (current (parseWindyResponse now raw))
         = nullish (item (nullish (raw_rh raw) []) idx) 0
     \<and> precip3h (current (parseWindyResponse now raw))
         = mToIn (nullish (item (nullish (raw_precip raw) []) idx) 0)"
proof -
  let ?tms = "nullish (raw_ts raw) []"
  have sel: "if \<exists>i < length ?tms. ?tms ! i \<le> now
      then curIdx ?tms now < length ?tms
        \<and> ?tms ! curIdx ?tms now \<le> now
        \<and> (\<forall>j < length ?tms. ?tms ! j \<le> now \<longrightarrow> j \<le> curIdx ?tms now)
      else curIdx ?tms now = 0"
  proof (cases "\<exists>i < length ?tms. ?tms ! i \<le> now")
    case True
    show ?thesis
      unfolding if_P [OF True] curIdx_def by (rule curIdx_scan_past [OF True])
  next
    case False
    then have "\<forall>i < length ?tms. now < ?tms ! i" by auto
    then show ?thesis
      unfolding if_not_P [OF False] curIdx_def by (rule curIdx_scan_future)
  qed
  have cur: "current (parseWindyResponse now raw) = current_at raw (curIdx ?tms now)"
    by (simp add: parseWindyResponse_def Let_def)
  show ?thesis
    apply (rule exI [of _ "curIdx ?tms now"])
    apply (rule conjI [OF sel])
    apply (simp add: cur current_at_def Let_def)
    done
qed

text \<open>
  With timestamps 10, 20, 30, 40 and the clock at 35 the humidity is read at index 2;
  with the clock at 5 every timestep is in the future and it is read at index 0.
\<close>

theorem parseWindyResponse_current_witness:
  "humidity (current (parseWindyResponse 35
      \<lparr> raw_ts = Some [10, 20, 30, 40], raw_temp = None, raw_precip = None,
        raw_wind_u = None, raw_wind_v = None, raw_gust = None,
        raw_rh = Some [Some 61, Some 62, Some 63, Some 64] \<rparr>)) = 63
   \<and> humidity (current (parseWindyResponse 5
      \<lparr> raw_ts = Some [10, 20, 30, 40], raw_temp = None, raw_precip = None,
        raw_wind_u = None, raw_wind_v = None, raw_gust = None,
        raw_rh = Some [Some 61, Some 62, Some 63, Some 64] \<rparr>)) = 61"
proof -
  let ?raw = "\<lparr> raw_ts = Some [10, 20, 30, 40 :: int], raw_temp = None, raw_precip = None,
        raw_wind_u = None, raw_wind_v = None, raw_gust = None,
        raw_rh = Some [Some 61, Some 62, Some 63, Some (64 :: real)] \<rparr>"
  have tms: "nullish (raw_ts ?raw) [] = [10, 20, 30, 40]" by (simp add: nullish_def)
  have past: "\<exists>i < length [10, 20, 30, 40 :: int]. [10, 20, 30, 40 :: int] ! i \<le> 35"
    by (rule exI [of _ 0]) simp
  from parseWindyResponse_current [of ?raw 35]
  obtain idx where i: "idx < length [10, 20, 30, 40 :: int]"
      "[10, 20, 30, 40 :: int] ! idx \<le> 35"
      "\<forall>j < length [10, 20, 30, 40 :: int]. [10, 20, 30, 40 :: int] ! j \<le> 35 \<longrightarrow> j \<le> idx"
    and h: "humidity (current (parseWindyResponse 35 ?raw))
         = nullish (item (nullish (raw_rh ?raw) []) idx) 0"
    unfolding tms if_P [OF past] by blast
  from i(3) have "2 \<le> idx" by (simp add: numeral_2_eq_2)
  moreover from i(1, 2) have "idx \<noteq> 3" by auto
  moreover from i(1) have "idx < 4" by simp
  ultimately have "idx = 2" by simp
  with h have a: "humidity (current (parseWindyResponse 35 ?raw)) = 63"
    by (simp add: nullish_def item_def)
  have future: "\<not> (\<exists>i < length [10, 20, 30, 40 :: int]. [10, 20, 30, 40 :: int] ! i \<le> 5)"
  proof
    assume "\<exists>i < length [10, 20, 30, 40 :: int]. [10, 20, 30, 40 :: int] ! i \<le> 5"
    then obtain i where "i < length [10, 20, 30, 40 :: int]" "[10, 20, 30, 40 :: int] ! i \<le> 5"
      by blast
    moreover from this(1) have "[10, 20, 30, 40 :: int] ! i \<in> set [10, 20, 30, 40]"
      by (rule nth_mem)
    then have "5 < [10, 20, 30, 40 :: int] ! i" by auto
    ultimately show False by simp
  qed
  from parseWindyResponse_current [of ?raw 5]
  have "humidity (current (parseWindyResponse 5 ?raw))
         = nullish (item (nullish (raw_rh ?raw) []) 0) 0"
    unfolding tms if_not_P [OF future] by auto
  then have b: "humidity (current (parseWindyResponse 5 ?raw)) = 61"
    by (simp add: nullish_def item_def)
  from a b show ?thesis by simp
qed

subsection \<open>Point forecast: the daily aggregation\<close>

lemma dayMap_add_keys:
  "map fst (dayMap_add tms tempK precM i m)
     = (if toLocaleDateString (tms ! i) \<in> fst ` set m then map fst m else map fst m @ [toLocaleDateString (tms ! i)])"
  by (simp add: dayMap_add_def Let_def case_prod_unfold comp_def if_distrib [of fst] cong: if_cong)

lemma dayMap_add_entry:
  assumes "(k, v') \<in> set (dayMap_add tms tempK precM i m)"
  shows "(k \<noteq> toLocaleDateString (tms ! i) \<and> (k, v') \<in> set m)
     \<or> (k = toLocaleDateString (tms ! i)
         \<and> (\<exists>v. ((k, v) \<in> set m
                  \<or> (k \<notin> fst ` set m \<and> v = \<lparr> label = dayLabel k, temps = [], precips = [] \<rparr>))
              \<and> v' = v \<lparr> temps := temps v @ [kToF (nullish (item tempK i) 273.15)],
                          precips := precips v @ [mToIn (nullish (item precM i) 0)] \<rparr>))"
  using assms
  by (auto simp: dayMap_add_def Let_def split: if_splits)

lemma group_upt_Suc:
  "filter (\<lambda>i. f i = k) [0..<Suc n] = filter (\<lambda>i. f i = k) [0..<n] @ (if f n = k then [n] else [])"
  by simp

lemma dayMap_fold_inv:
  "distinct (map fst (fold (dayMap_add tms tempK precM) [0..<n] []))
   \<and> fst ` set (fold (dayMap_add tms tempK precM) [0..<n] [])
        = (\<lambda>i. toLocaleDateString (tms ! i)) ` {..<n}
   \<and> (\<forall>(k, v) \<in> set (fold (dayMap_add tms tempK precM) [0..<n] []).
         label v = dayLabel k
         \<and> temps v = map (\<lambda>i. kToF (nullish (item tempK i) 273.15))
                        (filter (\<lambda>i. toLocaleDateString (tms ! i) = k) [0..<n])
         \<and> precips v = map (\<lambda>i. mToIn (nullish (item precM i) 0))
                          (filter (\<lambda>i. toLocaleDateString (tms ! i) = k) [0..<n]))"
proof (induction n)
  case 0
  then show ?case by simp
next
  case (Suc n)
  define m where "m = fold (dayMap_add tms tempK precM) [0..<n] []"
  define key where "key = toLocaleDateString (tms ! n)"
  have step: "fold (dayMap_add tms tempK precM) [0..<Suc n] []
                = dayMap_add tms tempK precM n m"
    by (simp add: m_def)
  from Suc have d: "distinct (map fst m)"
    and ks: "fst ` set m = (\<lambda>i. toLocaleDateString (tms ! i)) ` {..<n}"
    and vs: "\<And>k v. (k, v) \<in> set m \<Longrightarrow>
         label v = dayLabel k
         \<and> temps v = map (\<lambda>i. kToF (nullish (item tempK i) 273.15))
                        (filter (\<lambda>i. toLocaleDateString (tms ! i) = k) [0..<n])
         \<and> precips v = map (\<lambda>i. mToIn (nullish (item precM i) 0))
                          (filter (\<lambda>i. toLocaleDateString (tms ! i) = k) [0..<n])"
    unfolding m_def by auto
  have keys: "map fst (dayMap_add tms tempK precM n m)
                = (if key \<in> fst ` set m then map fst m else map fst m @ [key])"
    unfolding key_def by (rule dayMap_add_keys)
  have 1: "distinct (map fst (dayMap_add tms tempK precM n m))"
    unfolding keys using d by auto
  have "fst ` set (dayMap_add tms tempK precM n m)
          = set (map fst (dayMap_add tms tempK precM n m))"
    by simp
  also have "\<dots> = insert key (fst ` set m)"
    unfolding keys by auto
  also have "\<dots> = (\<lambda>i. toLocaleDateString (tms ! i)) ` {..<Suc n}"
    unfolding ks key_def by (auto simp: less_Suc_eq)
  finally have 2: "fst ` set (dayMap_add tms tempK precM n m)
          = (\<lambda>i. toLocaleDateString (tms ! i)) ` {..<Suc n}" .
  have 3: "label v' = dayLabel k
         \<and> temps v' = map (\<lambda>i. kToF (nullish (item tempK i) 273.15))
                        (filter (\<lambda>i. toLocaleDateString (tms ! i) = k) [0..<Suc n])
         \<and> precips v' = map (\<lambda>i. mToIn (nullish (item precM i) 0))
                          (filter (\<lambda>i. toLocaleDateString (tms ! i) = k) [0..<Suc n])"
    if mem: "(k, v') \<in> set (dayMap_add tms tempK precM n m)" for k v'
  proof -
    from dayMap_add_entry [OF mem]
    consider (other) "k \<noteq> key" "(k, v') \<in> set m"
      | (old) v where "k = key" "(k, v) \<in> set m"
          "v' = v \<lparr> temps := temps v @ [kToF (nullish (item tempK n) 273.15)],
                    precips := precips v @ [mToIn (nullish (item precM n) 0)] \<rparr>"
      | (new) "k = key" "k \<notin> fst ` set m"
          "v' = \<lparr> label = dayLabel k, temps = [kToF (nullish (item tempK n) 273.15)],
                  precips = [mToIn (nullish (item precM n) 0)] \<rparr>"
      unfolding key_def by auto
    then show ?thesis
    proof cases
      case other
      with vs [OF other(2)] show ?thesis
        unfolding group_upt_Suc key_def by auto
    next
      case old
      with vs [OF old(2)] show ?thesis
        unfolding group_upt_Suc key_def by auto
    next
      case new
      from new(2) have "\<forall>i<n. toLocaleDateString (tms ! i) \<noteq> k"
        unfolding ks by auto
      then have "filter (\<lambda>i. toLocaleDateString (tms ! i) = k) [0..<n] = []"
        by (auto simp: filter_empty_conv)
      with new show ?thesis
        unfolding group_upt_Suc key_def by auto
    qed
  qed
  from 1 2 3 show ?case unfolding step by blast
qed


lemma Math_max_nonempty:
  assumes "xs \<noteq> []"
  shows "Math_max xs = Some (Max (set xs))"
proof -
  from assms obtain x ys where xs: "xs = x # ys" by (cases xs) auto
  have "foldl max x ys = fold max ys x"
    by (simp add: foldl_conv_fold max.commute)
  then show ?thesis
    unfolding xs Math_max_def using Max.set_eq_fold [of x ys] by simp
qed

lemma Math_min_nonempty:
  assumes "xs \<noteq> []"
  shows "Math_min xs = Some (Min (set xs))"
proof -
  from assms obtain x ys where xs: "xs = x # ys" by (cases xs) auto
  have "foldl min x ys = fold min ys x"
    by (simp add: foldl_conv_fold min.commute)
  then show ?thesis
    unfolding xs Math_min_def using Min.set_eq_fold [of x ys] by simp
qed

lemma foldl_plus_sum_list: "foldl (+) a xs = a + sum_list (xs :: real list)"
  by (induction xs arbitrary: a) simp_all

lemma distinct_map_insort_key:
  "distinct (map f (insort_key f x xs)) \<longleftrightarrow> f x \<notin> f ` set xs \<and> distinct (map f xs)"
  by (induction xs) (auto simp: set_insort_key)

lemma distinct_map_sort_key:
  "distinct (map f (sort_key f xs)) \<longleftrightarrow> distinct (map f xs)"
  by (induction xs) (auto simp: distinct_map_insort_key)

lemma sort_key_fst_keys:
  assumes "distinct (map fst m)"
  shows "map fst (sort_key fst m) = sorted_list_of_set (fst ` set m)"
proof -
  have "sorted (map fst (sort_key fst m))" by (rule sorted_sort_key)
  moreover have "distinct (map fst (sort_key fst m))"
    using assms by (simp add: distinct_map_sort_key)
  moreover have "set (map fst (sort_key fst m)) = fst ` set m" by simp
  ultimately show ?thesis
    by (metis List.finite_set sorted_list_of_set.idem_if_sorted_distinct)
qed

lemma dayMap_of_keys:
  "distinct (map fst (dayMap_of tms tempK precM))
   \<and> fst ` set (dayMap_of tms tempK precM) = toLocaleDateString ` set tms"
proof -
  have "(\<lambda>i. toLocaleDateString (tms ! i)) ` {..<length tms} = toLocaleDateString ` set tms"
    by (auto simp: set_conv_nth)
  with dayMap_fold_inv [of tms tempK precM "length tms"]
  show ?thesis unfolding dayMap_of_def by simp
qed

lemma dayMap_of_group:
  assumes "(k, v) \<in> set (dayMap_of tms tempK precM)"
  shows "label v = dayLabel k
     \<and> temps v = map (\<lambda>i. kToF (nullish (item tempK i) 273.15))
                    (filter (\<lambda>i. toLocaleDateString (tms ! i) = k) [0..<length tms])
     \<and> precips v = map (\<lambda>i. mToIn (nullish (item precM i) 0))
                      (filter (\<lambda>i. toLocaleDateString (tms ! i) = k) [0..<length tms])
     \<and> filter (\<lambda>i. toLocaleDateString (tms ! i) = k) [0..<length tms] \<noteq> []"
proof -
  from assms have "k \<in> fst ` set (dayMap_of tms tempK precM)" by force
  then have "k \<in> toLocaleDateString ` set tms" using dayMap_of_keys by metis
  then obtain i where "i < length tms" "toLocaleDateString (tms ! i) = k"
    by (auto simp: set_conv_nth)
  then have "filter (\<lambda>i. toLocaleDateString (tms ! i) = k) [0..<length tms] \<noteq> []"
    by (auto simp: filter_empty_conv)
  with dayMap_fold_inv [of tms tempK precM "length tms"] assms
  show ?thesis unfolding dayMap_of_def by blast
qed

lemma daily_of_days:
  fixes tms :: "int list"
  defines "days \<equiv> sorted_list_of_set (toLocaleDateString ` set tms)"
  shows "length (daily_of tms tempK precM) = min 7 (length days)"
    and "j < length (daily_of tms tempK precM) \<Longrightarrow>
         filter (\<lambda>i. toLocaleDateString (tms ! i) = days ! j) [0..<length tms] \<noteq> []
         \<and> label (daily_of tms tempK precM ! j) = dayLabel (days ! j)
         \<and> high (daily_of tms tempK precM ! j)
             = Some (Max ((\<lambda>i. kToF (nullish (item tempK i) 273.15))
                  ` set (filter (\<lambda>i. toLocaleDateString (tms ! i) = days ! j) [0..<length tms])))
         \<and> low (daily_of tms tempK precM ! j)
             = Some (Min ((\<lambda>i. kToF (nullish (item tempK i) 273.15))
                  ` set (filter (\<lambda>i. toLocaleDateString (tms ! i) = days ! j) [0..<length tms])))
         \<and> precip (daily_of tms tempK precM ! j)
             = sum_list (map (\<lambda>i. mToIn (nullish (item precM i) 0))
                  (filter (\<lambda>i. toLocaleDateString (tms ! i) = days ! j) [0..<length tms]))"
proof -
  define m where "m = dayMap_of tms tempK precM"
  define sm where "sm = sort_key fst m"
  have keys: "map fst sm = days"
    unfolding sm_def m_def days_def
    using dayMap_of_keys [of tms tempK precM] sort_key_fst_keys by metis
  then have len: "length sm = length days" by (metis length_map)
  show l7: "length (daily_of tms tempK precM) = min 7 (length days)"
    using len by (simp add: daily_of_def m_def [symmetric] sm_def [symmetric] min.commute)
  assume "j < length (daily_of tms tempK precM)"
  with l7 len have j7: "j < 7" and jl: "j < length sm" by auto
  obtain k v where kv: "sm ! j = (k, v)" by (cases "sm ! j")
  have "fst (sm ! j) = days ! j"
    using keys jl by (metis nth_map)
  with kv have k: "k = days ! j" by simp
  have "(k, v) \<in> set sm" using kv jl by (metis nth_mem)
  then have "(k, v) \<in> set (dayMap_of tms tempK precM)"
    by (simp add: sm_def m_def)
  note g = dayMap_of_group [OF this]
  let ?idx = "filter (\<lambda>i. toLocaleDateString (tms ! i) = k) [0..<length tms]"
  have out: "daily_of tms tempK precM ! j
      = \<lparr> label = label v, high = Math_max (temps v), low = Math_min (temps v),
          precip = foldl (+) 0 (precips v) \<rparr>"
    using j7 jl kv by (simp add: daily_of_def m_def [symmetric] sm_def [symmetric])
  have ne: "temps v \<noteq> []" using g by simp
  have "high (daily_of tms tempK precM ! j) = Some (Max (set (temps v)))"
    unfolding out using Math_max_nonempty [OF ne] by simp
  moreover have "low (daily_of tms tempK precM ! j) = Some (Min (set (temps v)))"
    unfolding out using Math_min_nonempty [OF ne] by simp
  moreover have "precip (daily_of tms tempK precM ! j) = sum_list (precips v)"
    unfolding out by (simp add: foldl_plus_sum_list)
  moreover have "label (daily_of tms tempK precM ! j) = dayLabel k"
    unfolding out using g by simp
  ultimately show "filter (\<lambda>i. toLocaleDateString (tms ! i) = days ! j) [0..<length tms] \<noteq> []
         \<and> label (daily_of tms tempK precM ! j) = dayLabel (days ! j)
         \<and> high (daily_of tms tempK precM ! j)
             = Some (Max ((\<lambda>i. kToF (nullish (item tempK i) 273.15))
                  ` set (filter (\<lambda>i. toLocaleDateString (tms ! i) = days ! j) [0..<length tms])))
         \<and> low (daily_of tms tempK precM ! j)
             = Some (Min ((\<lambda>i. kToF (nullish (item tempK i) 273.15))
                  ` set (filter (\<lambda>i. toLocaleDateString (tms ! i) = days ! j) [0..<length tms])))
         \<and> precip (daily_of tms tempK precM ! j)
             = sum_list (map (\<lambda>i. mToIn (nullish (item precM i) 0))
                  (filter (\<lambda>i. toLocaleDateString (tms ! i) = days ! j) [0..<length tms]))"
    using g unfolding k [symmetric] by simp
qed

subsection \<open>Point forecast: the date key\<close>

text \<open>
  Decimal digits are ordered as the numbers they denote, so that two numerals of the
  same length compare, as strings, like their values.
\<close>

lemma digit_char_code:
  assumes "n < 10"
  shows "of_char (''0123456789'' ! n) = (48 + n :: nat)"
proof -
  have "[0..<10] = [0, 1, 2, 3, 4, 5, 6, 7, 8, 9 :: nat]"
    by (simp add: upt_rec)
  moreover from assms have "n \<in> set [0..<10]" by simp
  ultimately consider "n = 0" | "n = 1" | "n = 2" | "n = 3" | "n = 4"
    | "n = 5" | "n = 6" | "n = 7" | "n = 8" | "n = 9"
    by auto
  then show ?thesis by cases simp_all
qed

lemma digit_char_less:
  assumes "a < 10" and "b < 10"
  shows "''0123456789'' ! a < ''0123456789'' ! b \<longleftrightarrow> a < b"
  using digit_char_code [OF assms(1)] digit_char_code [OF assms(2)]
  by (simp add: less_char_def)

lemma digit_char_eq:
  assumes "a < 10" and "b < 10"
  shows "''0123456789'' ! a = ''0123456789'' ! b \<longleftrightarrow> a = b"
  using digit_char_code [OF assms(1)] digit_char_code [OF assms(2)]
  by (metis add_left_cancel)

lemma lex_quot_rem:
  fixes qa ra qb rb :: nat
  assumes "ra < 10" and "rb < 10"
  shows "10 * qa + ra < 10 * qb + rb \<longleftrightarrow> qa < qb \<or> (qa = qb \<and> ra < rb)"
  using assms by linarith

lemma decimal_less:
  fixes a b :: nat
  shows "a < b \<longleftrightarrow> a div 10 < b div 10 \<or> (a div 10 = b div 10 \<and> a mod 10 < b mod 10)"
  using lex_quot_rem [of "a mod 10" "b mod 10" "a div 10" "b div 10"] by simp

lemma decimal_eq:
  fixes a b :: nat
  shows "a = b \<longleftrightarrow> a div 10 = b div 10 \<and> a mod 10 = b mod 10"
  by (metis mult_div_mod_eq)

lemma lex_append_same_length:
  fixes u v :: "'a :: linorder list"
  assumes "length u = length v"
  shows "u @ x < v @ y \<longleftrightarrow> u < v \<or> (u = v \<and> x < y)"
  using assms by (induction u v rule: list_induct2) auto

lemma show_nat_length_small: "n < 10 \<Longrightarrow> length (show_nat n) = 1"
  by (simp add: show_nat.simps)

lemma show_nat_length_step: "10 \<le> n \<Longrightarrow> length (show_nat n) = Suc (length (show_nat (n div 10)))"
  by (subst show_nat.simps) simp

lemma show_nat_length_pos: "0 < length (show_nat n)"
  by (cases "n < 10") (simp_all add: show_nat_length_small show_nat_length_step)

lemma show_nat_less:
  "length (show_nat a) = length (show_nat b) \<Longrightarrow>
     (show_nat a < show_nat b \<longleftrightarrow> a < b) \<and> (show_nat a = show_nat b \<longleftrightarrow> a = b)"
proof (induction a arbitrary: b rule: show_nat.induct)
  case (1 a)
  show ?case
  proof (cases "a < 10")
    case True
    have "b < 10"
    proof (rule ccontr)
      assume "\<not> b < 10"
      then have "length (show_nat b) = Suc (length (show_nat (b div 10)))"
        by (simp add: show_nat_length_step)
      with show_nat_length_pos [of "b div 10"] "1.prems" True show False
        by (simp add: show_nat_length_small)
    qed
    with True show ?thesis
      by (simp add: show_nat.simps [of a] show_nat.simps [of b] digit_char_less digit_char_eq)
  next
    case False
    have b: "\<not> b < 10"
    proof
      assume "b < 10"
      moreover from False have "length (show_nat a) = Suc (length (show_nat (a div 10)))"
        by (simp add: show_nat_length_step)
      ultimately show False
        using show_nat_length_pos [of "a div 10"] "1.prems" by (simp add: show_nat_length_small)
    qed
    from False b "1.prems" have len: "length (show_nat (a div 10)) = length (show_nat (b div 10))"
      by (simp add: show_nat_length_step)
    note ih = "1.IH" [OF False len]
    have sa: "show_nat a = show_nat (a div 10) @ [''0123456789'' ! (a mod 10)]"
      using False by (subst show_nat.simps) simp
    have sb: "show_nat b = show_nat (b div 10) @ [''0123456789'' ! (b mod 10)]"
      using b by (subst show_nat.simps) simp
    note lt = decimal_less [of a b] and eq = decimal_eq [of a b]
    show ?thesis
      unfolding sa sb
      using ih by (simp add: lex_append_same_length [OF len] digit_char_less digit_char_eq lt eq)
  qed
qed

lemma show_nat_length_year: "1000 \<le> y \<Longrightarrow> y \<le> 9999 \<Longrightarrow> length (show_nat y) = 4"
proof -
  assume y: "1000 \<le> y" "y \<le> 9999"
  then have "10 \<le> y" "10 \<le> y div 10" "10 \<le> y div 10 div 10" "y div 10 div 10 div 10 < 10"
    by auto
  then show ?thesis
    by (simp add: show_nat_length_step show_nat_length_small)
qed

lemma pad2_length: "n < 100 \<Longrightarrow> length (pad2 n) = 2"
  by (cases "n < 10") (simp_all add: pad2_def show_nat_length_small show_nat_length_step)

lemma pad2_digits: "n < 100 \<Longrightarrow> pad2 n = [''0123456789'' ! (n div 10), ''0123456789'' ! (n mod 10)]"
  by (cases "n < 10")
    (simp_all add: pad2_def show_nat.simps [of n] show_nat.simps [of "n div 10"])

lemma pad2_less:
  assumes "a < 100" and "b < 100"
  shows "(pad2 a < pad2 b \<longleftrightarrow> a < b) \<and> (pad2 a = pad2 b \<longleftrightarrow> a = b)"
proof -
  note lt = decimal_less [of a b] and eq = decimal_eq [of a b]
  from assms have "a div 10 < 10" "b div 10 < 10" "a mod 10 < 10" "b mod 10 < 10" by auto
  then show ?thesis
    by (simp add: pad2_digits assms digit_char_less digit_char_eq lt eq)
qed

text \<open>
  For years of four digits the keys are ordered, as strings, like the dates, and
  different dates have different keys.
\<close>

lemma dateString_less:
  assumes "1000 \<le> y" "y \<le> 9999" "m < 100" "d < 100"
    and "1000 \<le> y'" "y' \<le> 9999" "m' < 100" "d' < 100"
  shows "(dateString (y, m, d) < dateString (y', m', d') \<longleftrightarrow> (y, m, d) < (y', m', d'))
     \<and> (dateString (y, m, d) = dateString (y', m', d') \<longleftrightarrow> (y, m, d) = (y', m', d'))"
proof -
  have ly: "length (show_nat y) = length (show_nat y')"
    using assms by (simp add: show_nat_length_year)
  have lm: "length (pad2 m) = length (pad2 m')"
    using assms by (simp add: pad2_length)
  note yy = show_nat_less [OF ly]
  note mm = pad2_less [OF assms(3) assms(7)]
  note dd = pad2_less [OF assms(4) assms(8)]
  have lt: "dateString (y, m, d) < dateString (y', m', d')
      \<longleftrightarrow> y < y' \<or> (y = y' \<and> (m < m' \<or> (m = m' \<and> d < d')))"
    unfolding dateString_def prod.case
    using yy mm dd
    by (simp add: lex_append_same_length [OF ly] lex_append_same_length [OF lm])
  have eq: "dateString (y, m, d) = dateString (y', m', d') \<longleftrightarrow> y = y' \<and> m = m' \<and> d = d'"
    unfolding dateString_def prod.case
    using yy mm dd ly lm
    by (simp add: append_eq_append_conv)
  from lt eq show ?thesis
    by (auto simp: less_prod_def less_eq_prod_def)
qed

text \<open>
  The date of every timestamp has a year from 1969 on, a month from 1 to 12 and a day
  from 1 to 31.
\<close>

lemma year_day_bounds:
  "year_day y n = (y', r) \<Longrightarrow> y \<le> y' \<and> r < year_len y'"
proof (induction y n rule: year_day.induct)
  case (1 y n)
  show ?case
  proof (cases "n < year_len y")
    case True
    with "1.prems" show ?thesis by (simp add: year_day.simps [of y n])
  next
    case False
    with "1.prems" have "year_day (Suc y) (n - year_len y) = (y', r)"
      by (simp add: year_day.simps [of y n])
    from "1.IH" [OF False this] show ?thesis by simp
  qed
qed

lemma month_day_bounds:
  "month_day ls m n = (m', d) \<Longrightarrow> n < sum_list ls \<Longrightarrow> \<forall>l \<in> set ls. l \<le> 31 \<Longrightarrow>
     m \<le> m' \<and> m' < m + length ls \<and> 1 \<le> d \<and> d \<le> 31"
proof (induction ls arbitrary: m n)
  case Nil
  then show ?case by simp
next
  case (Cons l ls)
  show ?case
  proof (cases "n < l")
    case True
    with Cons.prems show ?thesis by auto
  next
    case False
    with Cons.prems have "month_day ls (Suc m) (n - l) = (m', d)" "n - l < sum_list ls"
      "\<forall>l \<in> set ls. l \<le> 31"
      by auto
    from Cons.IH [OF this] show ?thesis by simp
  qed
qed

lemma month_lens_sum: "sum_list (month_lens y) = year_len y"
  by (simp add: month_lens_def year_len_def)

lemma civil_bounds:
  assumes "civil n = (y, m, d)"
  shows "1969 \<le> y \<and> 1 \<le> m \<and> m \<le> 12 \<and> 1 \<le> d \<and> d \<le> 31"
proof -
  obtain y' r where yd: "year_day 1969 n = (y', r)" by (cases "year_day 1969 n")
  obtain m' d' where md: "month_day (month_lens y') 1 r = (m', d')"
    by (cases "month_day (month_lens y') 1 r")
  from assms yd have "y = y'" by (auto simp: civil_def split: prod.splits)
  with assms yd md have e: "y = y'" "m = m'" "d = d'" by (auto simp: civil_def)
  from year_day_bounds [OF yd] have y: "1969 \<le> y'" and r: "r < sum_list (month_lens y')"
    by (simp_all add: month_lens_sum)
  have "\<forall>l \<in> set (month_lens y'). l \<le> 31" by (simp add: month_lens_def)
  from month_day_bounds [OF md r this] y show ?thesis
    unfolding e by (simp add: month_lens_def)
qed

lemma losAngelesDate_bounds:
  assumes "losAngelesDate t = (y, m, d)"
  shows "1969 \<le> y \<and> 1 \<le> m \<and> m \<le> 12 \<and> 1 \<le> d \<and> d \<le> 31"
  using assms civil_bounds unfolding losAngelesDate_def Let_def by blast

lemma sorted_list_of_set_image_mono:
  fixes f :: "'a :: linorder \<Rightarrow> 'b :: linorder"
  assumes "finite S" and "\<And>a b. a \<in> S \<Longrightarrow> b \<in> S \<Longrightarrow> a < b \<Longrightarrow> f a < f b"
  shows "sorted_list_of_set (f ` S) = map f (sorted_list_of_set S)"
proof -
  let ?xs = "sorted_list_of_set S"
  have "sorted_wrt (<) ?xs" by (simp add: strict_sorted_iff)
  then have "sorted_wrt (\<lambda>a b. f a < f b) ?xs"
    by (rule sorted_wrt_mono_rel [rotated]) (use assms in auto)
  then have "sorted_wrt (<) (map f ?xs)" by (simp add: sorted_wrt_map)
  then have "sorted (map f ?xs)" "distinct (map f ?xs)"
    by (simp_all add: strict_sorted_iff)
  moreover have "set (map f ?xs) = f ` S" using assms(1) by simp
  ultimately show ?thesis
    by (metis sorted_list_of_set.idem_if_sorted_distinct)
qed


text \<open>The label of a key names the month and the day of its date.\<close>

lemma digit_char_is_digit: "n < 10 \<Longrightarrow> is_digit (''0123456789'' ! n)"
  unfolding is_digit_def by (rule nth_mem) simp

lemma digit_char_val: "n < 10 \<Longrightarrow> digit_val (''0123456789'' ! n) = n"
  by (simp add: digit_val_def digit_char_code)

lemma show_nat_digits: "c \<in> set (show_nat n) \<Longrightarrow> is_digit c"
proof (induction n rule: show_nat.induct)
  case (1 n)
  show ?case
  proof (cases "n < 10")
    case True
    with "1.prems" show ?thesis
      by (simp add: show_nat.simps [of n] digit_char_is_digit)
  next
    case False
    with "1.prems" have "c \<in> set (show_nat (n div 10)) \<or> c = ''0123456789'' ! (n mod 10)"
      by (subst (asm) show_nat.simps) auto
    with "1.IH" [OF False] show ?thesis
      by (auto simp: digit_char_is_digit)
  qed
qed

lemma digits_val_snoc: "digits_val (ds @ [c]) = 10 * digits_val ds + digit_val c"
  by (simp add: digits_val_def)

lemma digits_val_show_nat: "digits_val (show_nat n) = n"
proof (induction n rule: show_nat.induct)
  case (1 n)
  show ?case
  proof (cases "n < 10")
    case True
    then show ?thesis
      by (simp add: show_nat.simps [of n] digits_val_def digit_char_val)
  next
    case False
    then have "show_nat n = show_nat (n div 10) @ [''0123456789'' ! (n mod 10)]"
      by (subst show_nat.simps) simp
    with "1.IH" [OF False] show ?thesis
      by (simp add: digits_val_snoc digit_char_val)
  qed
qed

lemma show_nat_nonempty: "show_nat n \<noteq> []"
  using show_nat_length_pos [of n] by auto

lemma Number_show_nat: "Number (show_nat n) = Some n"
  by (simp add: Number_def show_nat_nonempty show_nat_digits digits_val_show_nat)

lemma Number_pad2: "Number (pad2 n) = Some n"
proof (cases "n < 10")
  case True
  have "is_digit CHR ''0''" by (simp add: is_digit_def)
  moreover have "digits_val (CHR ''0'' # show_nat n) = digits_val (show_nat n)"
    by (simp add: digits_val_def digit_val_def)
  ultimately show ?thesis
    using True by (simp add: pad2_def Number_def show_nat_digits digits_val_show_nat)
next
  case False
  then show ?thesis by (simp add: pad2_def Number_show_nat)
qed

lemma is_digit_not_hyphen: "is_digit c \<Longrightarrow> c \<noteq> CHR ''-''"
  by (auto simp: is_digit_def)

lemma show_nat_no_hyphen: "CHR ''-'' \<notin> set (show_nat n)"
  using show_nat_digits is_digit_not_hyphen by blast

lemma pad2_no_hyphen: "CHR ''-'' \<notin> set (pad2 n)"
  using show_nat_no_hyphen [of n] by (simp add: pad2_def)

lemma split_acc_piece:
  "sep \<notin> set s \<Longrightarrow> split_acc sep acc (s @ sep # rest) = (rev acc @ s) # split_acc sep [] rest"
  by (induction s arbitrary: acc) auto

lemma split_acc_last: "sep \<notin> set s \<Longrightarrow> split_acc sep acc s = [rev acc @ s]"
  by (induction s arbitrary: acc) auto

lemma split_dateString:
  "split CHR ''-'' (dateString (y, m, d)) = [show_nat y, pad2 m, pad2 d]"
proof -
  have "split CHR ''-'' (show_nat y @ CHR ''-'' # (pad2 m @ CHR ''-'' # pad2 d))
      = [show_nat y, pad2 m, pad2 d]"
    by (simp add: split_def split_acc_piece split_acc_last show_nat_no_hyphen pad2_no_hyphen)
  then show ?thesis by (simp add: dateString_def)
qed

lemma dayLabel_dateString:
  assumes "1 \<le> m" and "m \<le> 12"
  shows "dayLabel (dateString (y, m, d)) = months ! (m - 1) @ '' '' @ show_nat d"
  using assms by (simp add: dayLabel_def split_dateString Number_show_nat Number_pad2)

lemma daily_of_dates:
  fixes tms :: "int list"
  defines "days \<equiv> sorted_list_of_set (losAngelesDate ` set tms)"
  assumes range: "\<forall>t \<in> set tms. fst (losAngelesDate t) \<le> 9999"
  shows "sorted_list_of_set (toLocaleDateString ` set tms) = map dateString days"
    and "j < length days \<Longrightarrow>
         filter (\<lambda>i. toLocaleDateString (tms ! i) = dateString (days ! j)) [0..<length tms]
           = filter (\<lambda>i. losAngelesDate (tms ! i) = days ! j) [0..<length tms]"
    and "j < length days \<Longrightarrow>
         dayLabel (dateString (days ! j))
           = months ! (fst (snd (days ! j)) - 1) @ '' '' @ show_nat (snd (snd (days ! j)))"
proof -
  let ?S = "losAngelesDate ` set tms"
  have valid: "1000 \<le> y \<and> y \<le> 9999 \<and> 1 \<le> m \<and> m \<le> 12 \<and> m < 100 \<and> d < 100"
    if "(y, m, d) \<in> ?S" for y m d
  proof -
    from that obtain t where t: "t \<in> set tms" "losAngelesDate t = (y, m, d)" by auto
    from range t have "y \<le> 9999" by force
    with losAngelesDate_bounds [OF t(2)] show ?thesis by simp
  qed
  have cmp: "(dateString a < dateString b \<longleftrightarrow> a < b) \<and> (dateString a = dateString b \<longleftrightarrow> a = b)"
    if "a \<in> ?S" "b \<in> ?S" for a b
  proof -
    obtain y m d where a: "a = (y, m, d)" by (cases a)
    obtain y' m' d' where b: "b = (y', m', d')" by (cases b)
    from valid [of y m d] valid [of y' m' d'] that
    show ?thesis unfolding a b by (intro dateString_less) simp_all
  qed
  have "toLocaleDateString ` set tms = dateString ` ?S"
    by (simp add: image_image toLocaleDateString_def)
  moreover have "sorted_list_of_set (dateString ` ?S) = map dateString (sorted_list_of_set ?S)"
    by (rule sorted_list_of_set_image_mono) (use cmp in auto)
  ultimately show "sorted_list_of_set (toLocaleDateString ` set tms) = map dateString days"
    by (simp add: days_def)
  assume j: "j < length days"
  then have "days ! j \<in> set days" by (rule nth_mem)
  then have mem: "days ! j \<in> ?S" by (simp add: days_def)
  show "filter (\<lambda>i. toLocaleDateString (tms ! i) = dateString (days ! j)) [0..<length tms]
           = filter (\<lambda>i. losAngelesDate (tms ! i) = days ! j) [0..<length tms]"
  proof (rule filter_cong [OF refl])
    fix i assume "i \<in> set [0..<length tms]"
    then have "losAngelesDate (tms ! i) \<in> ?S" by simp
    from cmp [OF this mem]
    show "(toLocaleDateString (tms ! i) = dateString (days ! j))
        = (losAngelesDate (tms ! i) = days ! j)"
      by (simp add: toLocaleDateString_def)
  qed
  obtain y m d where ymd: "days ! j = (y, m, d)" by (cases "days ! j")
  with mem valid [of y m d] have "1 \<le> m" "m \<le> 12" by simp_all
  then show "dayLabel (dateString (days ! j))
           = months ! (fst (snd (days ! j)) - 1) @ '' '' @ show_nat (snd (snd (days ! j)))"
    unfolding ymd by (simp add: dayLabel_dateString)
qed

lemmas date_eval = losAngelesDate_def is_dst_def civil_def year_day.simps
  year_len_def is_leap_def month_lens_def weekday_def reached_def dst_start_def dst_end_def Let_def

text \<open>
  The date key at some instants. One second after the epoch it is still 31 December
  1969 in Los Angeles. At 07:30 UTC it is 23:30 of the previous day in standard time
  and 00:30 of the same day in daylight time: on 8 March 2026, the morning before
  daylight time begins, and on 2 November 2026, the day after it ended, the key is the
  previous day; on 9 March 2026 and on 1 July 2026 it is the same day. The last three
  instants fall under the rules of earlier years.
\<close>

lemma toLocaleDateString_examples:
  "toLocaleDateString 1000 = ''1969-12-31''"
  "toLocaleDateString 90000000 = ''1970-01-01''"
  "toLocaleDateString 1772955000000 = ''2026-03-07''"
  "toLocaleDateString 1773041400000 = ''2026-03-09''"
  "toLocaleDateString 1782891000000 = ''2026-07-01''"
  "toLocaleDateString 1793604600000 = ''2026-11-01''"
  "toLocaleDateString 954747000000 = ''2000-04-03''"
  "toLocaleDateString 126775800000 = ''1974-01-07''"
  "toLocaleDateString 514971000000 = ''1986-04-26''"
  by (simp_all add: toLocaleDateString_def date_eval dateString_def pad2_def show_nat.simps)

text \<open>
  Claim C7. Every timestamp is taken at or after the epoch and in a year up to 9999 of
  the Los Angeles calendar. Let \<open>days\<close> be the calendar dates in Los Angeles
  (America/Los\_Angeles, standard or daylight time as in force at the instant) of all
  timesteps, in ascending order of date and without repetition, and let the timesteps
  of a date be the indices whose timestamp falls on that date there. The daily output
  has one entry for each of the first seven dates, in that order, and so at most seven
  entries. The entry of a date carries the label of its month and day, the maximum and
  the minimum of the converted temperatures of the timesteps of that date, and the sum
  of their converted precipitation.
\<close>

theorem parseWindyResponse_daily:
  fixes raw :: windy_raw and now :: int
  defines "tms \<equiv> nullish (raw_ts raw) []"
    and "tempF \<equiv> \<lambda>i. kToF (nullish (item (nullish (raw_temp raw) []) i) 273.15)"
    and "precIn \<equiv> \<lambda>i. mToIn (nullish (item (nullish (raw_precip raw) []) i) 0)"
    and "out \<equiv> daily (parseWindyResponse now raw)"
  defines "days \<equiv> sorted_list_of_set (losAngelesDate ` set tms)"
    and "steps \<equiv> \<lambda>day. filter (\<lambda>i. losAngelesDate (tms ! i) = day) [0..<length tms]"
  assumes range: "\<forall>t \<in> set tms. 0 \<le> t \<and> fst (losAngelesDate t) \<le> 9999"
  shows "length out = min 7 (length days) \<and> length out \<le> 7
     \<and> (\<forall>j < length out.
           steps (days ! j) \<noteq> []
           \<and> label (out ! j)
               = months ! (fst (snd (days ! j)) - 1) @ '' '' @ show_nat (snd (snd (days ! j)))
           \<and> high (out ! j) = Some (Max (tempF ` set (steps (days ! j))))
           \<and> low (out ! j) = Some (Min (tempF ` set (steps (days ! j))))
           \<and> precip (out ! j) = sum_list (map precIn (steps (days ! j))))"
proof -
  have out: "out = daily_of tms (nullish (raw_temp raw) []) (nullish (raw_precip raw) [])"
    by (simp add: out_def tms_def parseWindyResponse_def Let_def)
  from range have r: "\<forall>t \<in> set tms. fst (losAngelesDate t) \<le> 9999" by blast
  note k = daily_of_dates [OF r, folded days_def]
  note d = daily_of_days [where tms = tms
      and tempK = "nullish (raw_temp raw) []" and precM = "nullish (raw_precip raw) []",
      unfolded k(1), folded out]
  have 1: "length out = min 7 (length days)"
    using d(1) by simp
  then have 2: "length out \<le> 7" by simp
  have 3: "steps (days ! j) \<noteq> []
           \<and> label (out ! j)
               = months ! (fst (snd (days ! j)) - 1) @ '' '' @ show_nat (snd (snd (days ! j)))
           \<and> high (out ! j) = Some (Max (tempF ` set (steps (days ! j))))
           \<and> low (out ! j) = Some (Min (tempF ` set (steps (days ! j))))
           \<and> precip (out ! j) = sum_list (map precIn (steps (days ! j)))"
    if "j < length out" for j
  proof -
    from that 1 have j: "j < length days" by simp
    from d(2) [OF that] show ?thesis
      unfolding nth_map [OF j] k(2) [OF j] k(3) [OF j] steps_def tempF_def precIn_def .
  qed
  from 1 2 3 show ?thesis by blast
qed

text \<open>
  Four timesteps on 19 February 2026 in UTC, at 10:30, 01:30, 04:30 and 07:30. In Los
  Angeles the first is on 19 February and the other three are on the evening of 18
  February. The first has no temperature (the default 273.15 K, 32 degrees
  Fahrenheit); the others have 41, 50 and 32 degrees. The precipitation of the three
  timesteps of 18 February is 0.001 m, 0.002 m and none, in inches 0.0393701 +
  0.0787402 + 0; that of 19 February is 0.0005 m.
\<close>

theorem parseWindyResponse_daily_witness:
  "(let tms = [1771497000000, 1771464600000, 1771475400000, 1771486200000];
        out = daily (parseWindyResponse 0
          \<lparr> raw_ts = Some tms,
            raw_temp = Some [None, Some 278.15, Some 283.15, Some 273.15],
            raw_precip = Some [Some 0.0005, Some 0.001, Some 0.002, None],
            raw_wind_u = None, raw_wind_v = None, raw_gust = None, raw_rh = None \<rparr>)
    in list_all (\<lambda>t. 0 \<le> t \<and> fst (losAngelesDate t) \<le> 9999) tms
       \<and> map losAngelesDate tms = [(2026, 2, 19), (2026, 2, 18), (2026, 2, 18), (2026, 2, 18)]
       \<and> map toLocaleDateString tms = [''2026-02-19'', ''2026-02-18'', ''2026-02-18'', ''2026-02-18'']
       \<and> length out = 2
       \<and> label (out ! 0) = ''Feb 18'' \<and> high (out ! 0) = Some 50 \<and> low (out ! 0) = Some 32
       \<and> precip (out ! 0) = 0.1181103
       \<and> label (out ! 1) = ''Feb 19'' \<and> high (out ! 1) = Some 32 \<and> low (out ! 1) = Some 32
       \<and> precip (out ! 1) = 0.01968505)"
proof -
  let ?tms = "[1771497000000, 1771464600000, 1771475400000, 1771486200000 :: int]"
  let ?raw = "\<lparr> raw_ts = Some ?tms,
        raw_temp = Some [None, Some 278.15, Some 283.15, Some (273.15 :: real)],
        raw_precip = Some [Some 0.0005, Some 0.001, Some 0.002, None :: real option],
        raw_wind_u = None, raw_wind_v = None, raw_gust = None, raw_rh = None \<rparr>"
  let ?out = "daily (parseWindyResponse 0 ?raw)"
  have d0: "losAngelesDate 1771497000000 = (2026, 2, 19)" by (simp add: date_eval)
  have d1: "losAngelesDate 1771464600000 = (2026, 2, 18)" by (simp add: date_eval)
  have d2: "losAngelesDate 1771475400000 = (2026, 2, 18)" by (simp add: date_eval)
  have d3: "losAngelesDate 1771486200000 = (2026, 2, 18)" by (simp add: date_eval)
  have keys: "map toLocaleDateString ?tms
      = [''2026-02-19'', ''2026-02-18'', ''2026-02-18'', ''2026-02-18'']"
    by (simp add: toLocaleDateString_def d0 d1 d2 d3 dateString_def pad2_def show_nat.simps)
  have tms: "nullish (raw_ts ?raw) [] = ?tms"
    and tk: "nullish (raw_temp ?raw) [] = [None, Some 278.15, Some 283.15, Some 273.15]"
    and tp: "nullish (raw_precip ?raw) [] = [Some 0.0005, Some 0.001, Some 0.002, None]"
    by (simp_all add: nullish_def)
  have hyp: "\<forall>t \<in> set ?tms. 0 \<le> t \<and> fst (losAngelesDate t) \<le> 9999"
    by (simp add: d0 d1 d2 d3)
  have days: "sorted_list_of_set (losAngelesDate ` set ?tms) = [(2026, 2, 18), (2026, 2, 19)]"
    by (simp add: d0 d1 d2 d3 sorted_list_of_set_sort_remdups)
  have upt4: "[0..<4] = [0, 1, 2, 3]" by (simp add: upt_rec)
  note w = parseWindyResponse_daily [of ?raw 0, unfolded tms tk tp days, OF hyp]
  from w [THEN conjunct1] have len: "length ?out = 2" by simp
  then have j0: "0 < length ?out" and j1: "1 < length ?out" by simp_all
  note e0 = w [THEN conjunct2, THEN conjunct2, rule_format, OF j0]
  note e1 = w [THEN conjunct2, THEN conjunct2, rule_format, OF j1]
  from e0 have a: "label (?out ! 0) = ''Feb 18''" "high (?out ! 0) = Some 50"
      "low (?out ! 0) = Some 32" "precip (?out ! 0) = 0.1181103"
    by (simp_all add: upt4 d0 d1 d2 d3 item_def nullish_def kToF_def mToIn_def months_def
        show_nat.simps)
  from e1 have b: "label (?out ! 1) = ''Feb 19''" "high (?out ! 1) = Some 32"
      "low (?out ! 1) = Some 32" "precip (?out ! 1) = 0.01968505"
    by (simp_all add: upt4 d0 d1 d2 d3 item_def nullish_def kToF_def mToIn_def months_def
        show_nat.simps)
  from hyp have "list_all (\<lambda>t. 0 \<le> t \<and> fst (losAngelesDate t) \<le> 9999) ?tms"
    by (simp only: list_all_iff)
  with d0 d1 d2 d3 keys len a b show ?thesis
    unfolding Let_def by simp
qed

subsection \<open>Provider fallback\<close>

lemma tryUSGS_cases:
  "tryUSGS w days st = (None, None)
   \<or> (\<exists>i d. truthy (usgsId st) = Some i \<and> fetchUSGS w i days = Inr d \<and> discharge d \<noteq> []
         \<and> tryUSGS w days st = (Some d, Some ''USGS''))"
  by (auto simp: tryUSGS_def split: option.splits sum.splits)

lemma tryUSBR_cases:
  "tryUSBR w days st (None, None) = (None, None)
   \<or> (\<exists>i d. truthy (usbrId st) = Some i \<and> fetchUSBR w i days = Inr d \<and> discharge d \<noteq> []
         \<and> tryUSBR w days st (None, None) = (Some d, Some ''USBR''))"
  by (auto simp: tryUSBR_def split: option.splits sum.splits)

lemma tryUSBR_keeps: "tryUSBR w days st (Some d, src) = (Some d, src)"
  by (simp add: tryUSBR_def)

lemma supplementTemp_discharge:
  "supplementTemp w days st None = None"
  "\<exists>r'. supplementTemp w days st (Some r) = Some r' \<and> discharge r' = discharge r"
  by (auto simp: supplementTemp_def split: option.splits sum.splits)

lemma stationJob_accepted:
  assumes "tryUSBR w days st (tryUSGS w days st) = (Some d, src)"
  shows "source (stationJob w days st) = src \<and> discharge (stationJob w days st) = discharge d"
proof -
  from supplementTemp_discharge(2) [of w days st d]
  obtain r' where "supplementTemp w days st (Some d) = Some r'" "discharge r' = discharge d"
    by blast
  with assms show ?thesis by (simp add: stationJob_def Let_def)
qed

lemma stationJob_none:
  assumes "tryUSBR w days st (tryUSGS w days st) = (None, src)"
  shows "source (stationJob w days st) = src \<and> discharge (stationJob w days st) = []"
  using assms by (simp add: stationJob_def Let_def supplementTemp_discharge(1))

lemma supplementTemp_Some:
  "\<exists>r'. supplementTemp w days st (Some r) = Some r'
      \<and> discharge r' = discharge r \<and> gageHeight r' = gageHeight r \<and> siteName r' = siteName r
      \<and> (waterTemp r' = waterTemp r
          \<or> (waterTemp r = []
              \<and> (\<exists>k tw. truthy (nwrfcId st) = Some k \<and> fetchNWRFCTemp w k days = Inr tw
                    \<and> tw \<noteq> [] \<and> waterTemp r' = tw)))"
  by (auto simp: supplementTemp_def split: option.splits sum.splits)

lemma stationJob_accepted_all:
  assumes "tryUSBR w days st (tryUSGS w days st) = (Some d, src)"
  shows "source (stationJob w days st) = src
    \<and> discharge (stationJob w days st) = discharge d
    \<and> gageHeight (stationJob w days st) = gageHeight d
    \<and> siteName (stationJob w days st) = siteName d
    \<and> (waterTemp (stationJob w days st) = waterTemp d
        \<or> (waterTemp d = []
            \<and> (\<exists>k tw. truthy (nwrfcId st) = Some k \<and> fetchNWRFCTemp w k days = Inr tw
                  \<and> tw \<noteq> [] \<and> waterTemp (stationJob w days st) = tw)))"
proof -
  from supplementTemp_Some [of w days st d]
  obtain r' where r: "supplementTemp w days st (Some d) = Some r'"
    "discharge r' = discharge d" "gageHeight r' = gageHeight d" "siteName r' = siteName d"
    "waterTemp r' = waterTemp d
          \<or> (waterTemp d = []
              \<and> (\<exists>k tw. truthy (nwrfcId st) = Some k \<and> fetchNWRFCTemp w k days = Inr tw
                    \<and> tw \<noteq> [] \<and> waterTemp r' = tw))"
    by blast
  have "stationJob w days st = \<lparr> discharge = discharge r', waterTemp = waterTemp r',
      gageHeight = gageHeight r', siteName = siteName r', forecast = fetchForecast w st,
      source = src \<rparr>"
    using assms r(1) by (simp add: stationJob_def Let_def)
  with r(2-5) show ?thesis by simp
qed

lemma stationJob_none_all:
  assumes "tryUSBR w days st (tryUSGS w days st) = (None, src)"
  shows "stationJob w days st
    = \<lparr> discharge = [], waterTemp = [], gageHeight = [], siteName = None,
        forecast = fetchForecast w st, source = src \<rparr>"
  using assms by (simp add: stationJob_def Let_def supplementTemp_discharge(1))

lemma stationJob_outcomes:
  obtains (none) "tryUSBR w days st (tryUSGS w days st) = (None, None)"
    | (usgs) i d1 where "truthy (usgsId st) = Some i" "fetchUSGS w i days = Inr d1"
        "discharge d1 \<noteq> []" "tryUSBR w days st (tryUSGS w days st) = (Some d1, Some ''USGS'')"
    | (usbr) i d1 where "truthy (usbrId st) = Some i" "fetchUSBR w i days = Inr d1"
        "discharge d1 \<noteq> []" "tryUSBR w days st (tryUSGS w days st) = (Some d1, Some ''USBR'')"
  using tryUSGS_cases [of w days st] tryUSBR_cases [of w days st]
  by (auto simp: tryUSBR_keeps)

lemma stationJob_unsourced:
  "source (stationJob w days st) = None \<longrightarrow>
     stationJob w days st
       = \<lparr> discharge = [], waterTemp = [], gageHeight = [], siteName = None,
           forecast = fetchForecast w st, source = None \<rparr>"
proof (cases rule: stationJob_outcomes [of w days st])
  case none
  from stationJob_none_all [OF none] show ?thesis by simp
next
  case (usgs i d1)
  from stationJob_accepted_all [OF usgs(4)] show ?thesis by simp
next
  case (usbr i d1)
  from stationJob_accepted_all [OF usbr(4)] show ?thesis by simp
qed

lemma stationJob_sourced:
  "source (stationJob w days st) = Some p \<longrightarrow>
     (\<exists>d1. ((p = ''USGS'' \<and> (\<exists>i. truthy (usgsId st) = Some i \<and> fetchUSGS w i days = Inr d1))
            \<or> (p = ''USBR'' \<and> (\<exists>i. truthy (usbrId st) = Some i \<and> fetchUSBR w i days = Inr d1)))
        \<and> discharge d1 \<noteq> []
        \<and> discharge (stationJob w days st) = discharge d1
        \<and> gageHeight (stationJob w days st) = gageHeight d1
        \<and> siteName (stationJob w days st) = siteName d1
        \<and> (waterTemp (stationJob w days st) = waterTemp d1
            \<or> (waterTemp d1 = []
                \<and> (\<exists>k tw. truthy (nwrfcId st) = Some k \<and> fetchNWRFCTemp w k days = Inr tw
                      \<and> tw \<noteq> [] \<and> waterTemp (stationJob w days st) = tw))))"
proof (cases rule: stationJob_outcomes [of w days st])
  case none
  from stationJob_none_all [OF none] show ?thesis by simp
next
  case (usgs i d1)
  note acc = stationJob_accepted_all [OF usgs(4)]
  show ?thesis
  proof (intro impI)
    assume "source (stationJob w days st) = Some p"
    with acc have p: "p = ''USGS''" by simp
    from usgs(1,2) have "\<exists>i. truthy (usgsId st) = Some i \<and> fetchUSGS w i days = Inr d1"
      by blast
    with p acc usgs(3) show "\<exists>d1. ((p = ''USGS'' \<and> (\<exists>i. truthy (usgsId st) = Some i \<and> fetchUSGS w i days = Inr d1))
            \<or> (p = ''USBR'' \<and> (\<exists>i. truthy (usbrId st) = Some i \<and> fetchUSBR w i days = Inr d1)))
        \<and> discharge d1 \<noteq> []
        \<and> discharge (stationJob w days st) = discharge d1
        \<and> gageHeight (stationJob w days st) = gageHeight d1
        \<and> siteName (stationJob w days st) = siteName d1
        \<and> (waterTemp (stationJob w days st) = waterTemp d1
            \<or> (waterTemp d1 = []
                \<and> (\<exists>k tw. truthy (nwrfcId st) = Some k \<and> fetchNWRFCTemp w k days = Inr tw
                      \<and> tw \<noteq> [] \<and> waterTemp (stationJob w days st) = tw)))"
      by (intro exI [of _ d1]) simp
  qed
next
  case (usbr i d1)
  note acc = stationJob_accepted_all [OF usbr(4)]
  show ?thesis
  proof (intro impI)
    assume "source (stationJob w days st) = Some p"
    with acc have p: "p = ''USBR''" by simp
    from usbr(1,2) have "\<exists>i. truthy (usbrId st) = Some i \<and> fetchUSBR w i days = Inr d1"
      by blast
    with p acc usbr(3) show "\<exists>d1. ((p = ''USGS'' \<and> (\<exists>i. truthy (usgsId st) = Some i \<and> fetchUSGS w i days = Inr d1))
            \<or> (p = ''USBR'' \<and> (\<exists>i. truthy (usbrId st) = Some i \<and> fetchUSBR w i days = Inr d1)))
        \<and> discharge d1 \<noteq> []
        \<and> discharge (stationJob w days st) = discharge d1
        \<and> gageHeight (stationJob w days st) = gageHeight d1
        \<and> siteName (stationJob w days st) = siteName d1
        \<and> (waterTemp (stationJob w days st) = waterTemp d1
            \<or> (waterTemp d1 = []
                \<and> (\<exists>k tw. truthy (nwrfcId st) = Some k \<and> fetchNWRFCTemp w k days = Inr tw
                      \<and> tw \<noteq> [] \<and> waterTemp (stationJob w days st) = tw)))"
      by (intro exI [of _ d1]) simp
  qed
qed

lemma stationJob_rejects_empty:
  "(truthy (usgsId st) = Some i \<and> fetchUSGS w i days = Inr d0 \<and> discharge d0 = []
      \<longrightarrow> source (stationJob w days st) \<noteq> Some ''USGS'')
   \<and> (truthy (usbrId st) = Some j \<and> fetchUSBR w j days = Inr d2 \<and> discharge d2 = []
      \<longrightarrow> source (stationJob w days st) \<noteq> Some ''USBR'')"
proof (cases rule: stationJob_outcomes [of w days st])
  case none
  from stationJob_none_all [OF none] show ?thesis by simp
next
  case (usgs i' d1)
  from stationJob_accepted_all [OF usgs(4)] usgs(1-3) show ?thesis by auto
next
  case (usbr i' d1)
  from stationJob_accepted_all [OF usbr(4)] usbr(1-3) show ?thesis by auto
qed

lemma stationJob_secondary_source:
  "((truthy (usgsId st) = None
      \<or> (\<exists>i. truthy (usgsId st) = Some i
            \<and> ((\<exists>e. fetchUSGS w i days = Inl e)
                \<or> (\<exists>d0. fetchUSGS w i days = Inr d0 \<and> discharge d0 = []))))
     \<and> truthy (usbrId st) = Some j \<and> fetchUSBR w j days = Inr d \<and> discharge d \<noteq> []
     \<longrightarrow> source (stationJob w days st) = Some ''USBR''
         \<and> discharge (stationJob w days st) = discharge d
         \<and> discharge (stationJob w days st) \<noteq> [])
   \<and> (source (stationJob w days st) = None \<longleftrightarrow> discharge (stationJob w days st) = [])
   \<and> (source (stationJob w days st) = Some ''USGS'' \<longrightarrow>
        (\<exists>i d1. truthy (usgsId st) = Some i \<and> fetchUSGS w i days = Inr d1
           \<and> discharge d1 \<noteq> [] \<and> discharge (stationJob w days st) = discharge d1))
   \<and> (source (stationJob w days st) = Some ''USBR'' \<longrightarrow>
        (\<exists>i d1. truthy (usbrId st) = Some i \<and> fetchUSBR w i days = Inr d1
           \<and> discharge d1 \<noteq> [] \<and> discharge (stationJob w days st) = discharge d1))"
proof -
  have fallback: "source (stationJob w days st) = Some ''USBR''
         \<and> discharge (stationJob w days st) = discharge d
         \<and> discharge (stationJob w days st) \<noteq> []"
    if primary: "truthy (usgsId st) = None
      \<or> (\<exists>i. truthy (usgsId st) = Some i
            \<and> ((\<exists>e. fetchUSGS w i days = Inl e)
                \<or> (\<exists>d0. fetchUSGS w i days = Inr d0 \<and> discharge d0 = [])))"
      and secondary: "truthy (usbrId st) = Some j" "fetchUSBR w j days = Inr d" "discharge d \<noteq> []"
  proof -
    from primary have "tryUSGS w days st = (None, None)"
      by (auto simp: tryUSGS_def)
    moreover from secondary have "tryUSBR w days st (None, None) = (Some d, Some ''USBR'')"
      by (simp add: tryUSBR_def)
    ultimately have "tryUSBR w days st (tryUSGS w days st) = (Some d, Some ''USBR'')"
      by simp
    from stationJob_accepted [OF this] secondary(3) show ?thesis by simp
  qed
  consider (none) "tryUSBR w days st (tryUSGS w days st) = (None, None)"
    | (usgs) i d1 where "truthy (usgsId st) = Some i" "fetchUSGS w i days = Inr d1"
        "discharge d1 \<noteq> []" "tryUSBR w days st (tryUSGS w days st) = (Some d1, Some ''USGS'')"
    | (usbr) i d1 where "truthy (usbrId st) = Some i" "fetchUSBR w i days = Inr d1"
        "discharge d1 \<noteq> []" "tryUSBR w days st (tryUSGS w days st) = (Some d1, Some ''USBR'')"
    using tryUSGS_cases [of w days st] tryUSBR_cases [of w days st]
    by (auto simp: tryUSBR_keeps)
  then have rest: "(source (stationJob w days st) = None \<longleftrightarrow> discharge (stationJob w days st) = [])
   \<and> (source (stationJob w days st) = Some ''USGS'' \<longrightarrow>
        (\<exists>i d1. truthy (usgsId st) = Some i \<and> fetchUSGS w i days = Inr d1
           \<and> discharge d1 \<noteq> [] \<and> discharge (stationJob w days st) = discharge d1))
   \<and> (source (stationJob w days st) = Some ''USBR'' \<longrightarrow>
        (\<exists>i d1. truthy (usbrId st) = Some i \<and> fetchUSBR w i days = Inr d1
           \<and> discharge d1 \<noteq> [] \<and> discharge (stationJob w days st) = discharge d1))"
  proof cases
    case none
    from stationJob_none [OF none] show ?thesis by simp
  next
    case usgs
    from stationJob_accepted [OF usgs(4)] usgs(1-3) show ?thesis by auto
  next
    case usbr
    from stationJob_accepted [OF usbr(4)] usbr(1-3) show ?thesis by auto
  qed
  from fallback rest show ?thesis by blast
qed

text \<open>
  Claim C3. When the station has no usable primary result (no USGS identifier, a failed
  USGS fetch, or a USGS result with an empty discharge series), has a USBR identifier,
  and the USBR fetch returns a non-empty discharge series, the new reading has source
  \<open>USBR\<close> and that discharge series. In every case the reading has a source exactly
  when its discharge series is not empty, and a reading with source \<open>USGS\<close> or
  \<open>USBR\<close> carries the non-empty discharge series that provider returned.

  A provider result with an empty discharge series is not accepted: a reading without
  a source is the empty default (no discharge, water temperature, gage height or site
  name, whatever the providers returned of them) with the forecast; a USGS result with
  an empty discharge series never makes the source \<open>USGS\<close>, a USBR result with an empty
  discharge series never makes it \<open>USBR\<close>; and a reading with a source has that source
  among \<open>USGS\<close> and \<open>USBR\<close>, and takes its discharge, gage height and site name from
  that provider's result, whose discharge series is not empty, and its water
  temperature from that result too, or, when the result has none, from a non-empty NWRFC
  series.
\<close>

theorem stationJob_fallback:
  "((truthy (usgsId st) = None
      \<or> (\<exists>i. truthy (usgsId st) = Some i
            \<and> ((\<exists>e. fetchUSGS w i days = Inl e)
                \<or> (\<exists>d0. fetchUSGS w i days = Inr d0 \<and> discharge d0 = []))))
     \<and> truthy (usbrId st) = Some j \<and> fetchUSBR w j days = Inr d \<and> discharge d \<noteq> []
     \<longrightarrow> source (stationJob w days st) = Some ''USBR''
         \<and> discharge (stationJob w days st) = discharge d
         \<and> discharge (stationJob w days st) \<noteq> [])
   \<and> (source (stationJob w days st) = None \<longleftrightarrow> discharge (stationJob w days st) = [])
   \<and> (source (stationJob w days st) = Some ''USGS'' \<longrightarrow>
        (\<exists>i d1. truthy (usgsId st) = Some i \<and> fetchUSGS w i days = Inr d1
           \<and> discharge d1 \<noteq> [] \<and> discharge (stationJob w days st) = discharge d1))
   \<and> (source (stationJob w days st) = Some ''USBR'' \<longrightarrow>
        (\<exists>i d1. truthy (usbrId st) = Some i \<and> fetchUSBR w i days = Inr d1
           \<and> discharge d1 \<noteq> [] \<and> discharge (stationJob w days st) = discharge d1))
   \<and> (source (stationJob w days st) = None \<longrightarrow>
        stationJob w days st
          = \<lparr> discharge = [], waterTemp = [], gageHeight = [], siteName = None,
              forecast = fetchForecast w st, source = None \<rparr>)
   \<and> (\<forall>i d0. truthy (usgsId st) = Some i \<and> fetchUSGS w i days = Inr d0 \<and> discharge d0 = []
        \<longrightarrow> source (stationJob w days st) \<noteq> Some ''USGS'')
   \<and> (\<forall>i d0. truthy (usbrId st) = Some i \<and> fetchUSBR w i days = Inr d0 \<and> discharge d0 = []
        \<longrightarrow> source (stationJob w days st) \<noteq> Some ''USBR'')
   \<and> (\<forall>p. source (stationJob w days st) = Some p \<longrightarrow>
        (\<exists>d1. ((p = ''USGS''
                  \<and> (\<exists>i. truthy (usgsId st) = Some i \<and> fetchUSGS w i days = Inr d1))
               \<or> (p = ''USBR''
                  \<and> (\<exists>i. truthy (usbrId st) = Some i \<and> fetchUSBR w i days = Inr d1)))
           \<and> discharge d1 \<noteq> []
           \<and> discharge (stationJob w days st) = discharge d1
           \<and> gageHeight (stationJob w days st) = gageHeight d1
           \<and> siteName (stationJob w days st) = siteName d1
           \<and> (waterTemp (stationJob w days st) = waterTemp d1
               \<or> (waterTemp d1 = []
                   \<and> (\<exists>k tw. truthy (nwrfcId st) = Some k \<and> fetchNWRFCTemp w k days = Inr tw
                         \<and> tw \<noteq> [] \<and> waterTemp (stationJob w days st) = tw)))))"
proof -
  note a = stationJob_secondary_source [of st w days j d]
  have b: "source (stationJob w days st) = None \<longrightarrow>
        stationJob w days st
          = \<lparr> discharge = [], waterTemp = [], gageHeight = [], siteName = None,
              forecast = fetchForecast w st, source = None \<rparr>"
    by (rule stationJob_unsourced)
  have c: "\<forall>i d0. truthy (usgsId st) = Some i \<and> fetchUSGS w i days = Inr d0 \<and> discharge d0 = []
        \<longrightarrow> source (stationJob w days st) \<noteq> Some ''USGS''"
    using stationJob_rejects_empty [of st _ w days, THEN conjunct1] by blast
  have d: "\<forall>i d0. truthy (usbrId st) = Some i \<and> fetchUSBR w i days = Inr d0 \<and> discharge d0 = []
        \<longrightarrow> source (stationJob w days st) \<noteq> Some ''USBR''"
    using stationJob_rejects_empty [of st _ w days, THEN conjunct2] by blast
  note e = stationJob_sourced [of w days st]
  from a b c d e show ?thesis by (intro conjI allI) (blast | simp)+
qed

text \<open>
  The Umtanum station (USGS 12484500, USBR UMTW) in a world where every USGS request
  fails and USBR returns one discharge sample; and in a world where both providers
  answer with water temperatures (USGS also with a gage height and a site name) but
  with empty discharge series: nothing of either result is stored.
\<close>

theorem stationJob_fallback_witness:
  "source (stationJob
      \<lparr> fetchUSGS = (\<lambda>_ _. Inl ''USGS 12484500: HTTP 503''),
        fetchUSBR = (\<lambda>_ _. Inr \<lparr> discharge = [\<lparr> time = 0, val = 326.57 \<rparr>], waterTemp = [],
                                 gageHeight = [], siteName = None \<rparr>),
        fetchNWRFCTemp = (\<lambda>_ _. Inr []), fetchNWSForecast = (\<lambda>_. Inr []),
        fetchWindy = (\<lambda>_ _. Inl ''offline''),
        has_refresh_btn = True, has_status_dot = True, has_status_label = True,
        updateMapMarkers_throws = False, clock = 0 \<rparr>
      7
      \<lparr> name = ''Yakima River at Umtanum'', lat = 46.8615, lng = - 120.4715,
        stationId = ''umtanum'', shortName = ''Umtanum'',
        usgsId = Some ''12484500'', usbrId = Some ''UMTW'', nwrfcId = None,
        nwsLid = Some ''UMTW1'', color = ''#f7768e'' \<rparr>) = Some ''USBR''
   \<and> discharge (stationJob
      \<lparr> fetchUSGS = (\<lambda>_ _. Inl ''USGS 12484500: HTTP 503''),
        fetchUSBR = (\<lambda>_ _. Inr \<lparr> discharge = [\<lparr> time = 0, val = 326.57 \<rparr>], waterTemp = [],
                                 gageHeight = [], siteName = None \<rparr>),
        fetchNWRFCTemp = (\<lambda>_ _. Inr []), fetchNWSForecast = (\<lambda>_. Inr []),
        fetchWindy = (\<lambda>_ _. Inl ''offline''),
        has_refresh_btn = True, has_status_dot = True, has_status_label = True,
        updateMapMarkers_throws = False, clock = 0 \<rparr>
      7
      \<lparr> name = ''Yakima River at Umtanum'', lat = 46.8615, lng = - 120.4715,
        stationId = ''umtanum'', shortName = ''Umtanum'',
        usgsId = Some ''12484500'', usbrId = Some ''UMTW'', nwrfcId = None,
        nwsLid = Some ''UMTW1'', color = ''#f7768e'' \<rparr>) = [\<lparr> time = 0, val = 326.57 \<rparr>]
   \<and> stationJob
      \<lparr> fetchUSGS = (\<lambda>_ _. Inr \<lparr> discharge = [], waterTemp = [\<lparr> time = 0, val = 41 \<rparr>],
                                 gageHeight = [\<lparr> time = 0, val = 3 \<rparr>],
                                 siteName = Some ''YAKIMA RIVER AT UMTANUM, WA'' \<rparr>),
        fetchUSBR = (\<lambda>_ _. Inr \<lparr> discharge = [], waterTemp = [\<lparr> time = 0, val = 42 \<rparr>],
                                 gageHeight = [], siteName = None \<rparr>),
        fetchNWRFCTemp = (\<lambda>_ _. Inr []), fetchNWSForecast = (\<lambda>_. Inr []),
        fetchWindy = (\<lambda>_ _. Inl ''offline''),
        has_refresh_btn = True, has_status_dot = True, has_status_label = True,
        updateMapMarkers_throws = False, clock = 0 \<rparr>
      7
      \<lparr> name = ''Yakima River at Umtanum'', lat = 46.8615, lng = - 120.4715,
        stationId = ''umtanum'', shortName = ''Umtanum'',
        usgsId = Some ''12484500'', usbrId = Some ''UMTW'', nwrfcId = None,
        nwsLid = Some ''UMTW1'', color = ''#f7768e'' \<rparr>
     = \<lparr> discharge = [], waterTemp = [], gageHeight = [], siteName = None,
         forecast = [], source = None \<rparr>"
proof -
  let ?d = "\<lparr> discharge = [\<lparr> time = 0, val = 326.57 \<rparr>], waterTemp = [],
             gageHeight = [], siteName = None \<rparr> :: provider_data"
  let ?w = "\<lparr> fetchUSGS = (\<lambda>_ _. Inl ''USGS 12484500: HTTP 503''),
        fetchUSBR = (\<lambda>_ _. Inr ?d),
        fetchNWRFCTemp = (\<lambda>_ _. Inr []), fetchNWSForecast = (\<lambda>_. Inr []),
        fetchWindy = (\<lambda>_ _. Inl ''offline''),
        has_refresh_btn = True, has_status_dot = True, has_status_label = True,
        updateMapMarkers_throws = False, clock = 0 \<rparr>"
  let ?st = "\<lparr> name = ''Yakima River at Umtanum'', lat = 46.8615, lng = - 120.4715,
        stationId = ''umtanum'', shortName = ''Umtanum'',
        usgsId = Some ''12484500'', usbrId = Some ''UMTW'', nwrfcId = None,
        nwsLid = Some ''UMTW1'', color = ''#f7768e'' \<rparr>"
  have hyp: "(truthy (usgsId ?st) = None
      \<or> (\<exists>i. truthy (usgsId ?st) = Some i
            \<and> ((\<exists>e. fetchUSGS ?w i 7 = Inl e)
                \<or> (\<exists>d0. fetchUSGS ?w i 7 = Inr d0 \<and> discharge d0 = []))))
     \<and> truthy (usbrId ?st) = Some ''UMTW'' \<and> fetchUSBR ?w ''UMTW'' 7 = Inr ?d
     \<and> discharge ?d \<noteq> []"
    by (simp add: truthy_def)
  from stationJob_fallback [of ?st ?w 7 "''UMTW''" ?d, THEN conjunct1, rule_format, OF hyp]
  have first: "source (stationJob ?w 7 ?st) = Some ''USBR''
    \<and> discharge (stationJob ?w 7 ?st) = [\<lparr> time = 0, val = 326.57 \<rparr>]"
    by simp
  let ?g = "\<lparr> discharge = [], waterTemp = [\<lparr> time = 0, val = 41 \<rparr>],
             gageHeight = [\<lparr> time = 0, val = 3 \<rparr>],
             siteName = Some ''YAKIMA RIVER AT UMTANUM, WA'' \<rparr> :: provider_data"
  let ?b = "\<lparr> discharge = [], waterTemp = [\<lparr> time = 0, val = 42 \<rparr>],
             gageHeight = [], siteName = None \<rparr> :: provider_data"
  let ?w2 = "\<lparr> fetchUSGS = (\<lambda>_ _. Inr ?g), fetchUSBR = (\<lambda>_ _. Inr ?b),
        fetchNWRFCTemp = (\<lambda>_ _. Inr []), fetchNWSForecast = (\<lambda>_. Inr []),
        fetchWindy = (\<lambda>_ _. Inl ''offline''),
        has_refresh_btn = True, has_status_dot = True, has_status_label = True,
        updateMapMarkers_throws = False, clock = 0 \<rparr>"
  note t = stationJob_fallback [of ?st ?w2 7 "''UMTW''" ?d]
  have g: "truthy (usgsId ?st) = Some ''12484500'' \<and> fetchUSGS ?w2 ''12484500'' 7 = Inr ?g
      \<and> discharge ?g = []"
    by (simp add: truthy_def)
  have b: "truthy (usbrId ?st) = Some ''UMTW'' \<and> fetchUSBR ?w2 ''UMTW'' 7 = Inr ?b
      \<and> discharge ?b = []"
    by (simp add: truthy_def)
  from t [THEN conjunct2, THEN conjunct2, THEN conjunct2, THEN conjunct2, THEN conjunct2,
      THEN conjunct1, rule_format, OF g]
  have n1: "source (stationJob ?w2 7 ?st) \<noteq> Some ''USGS''" .
  from t [THEN conjunct2, THEN conjunct2, THEN conjunct2, THEN conjunct2, THEN conjunct2,
      THEN conjunct2, THEN conjunct1, rule_format, OF b]
  have n2: "source (stationJob ?w2 7 ?st) \<noteq> Some ''USBR''" .
  have n: "source (stationJob ?w2 7 ?st) = None"
  proof (cases "source (stationJob ?w2 7 ?st)")
    case None
    then show ?thesis .
  next
    case (Some p)
    from t [THEN conjunct2, THEN conjunct2, THEN conjunct2, THEN conjunct2, THEN conjunct2,
      THEN conjunct2, THEN conjunct2, rule_format, OF Some]
    have "p = ''USGS'' \<or> p = ''USBR''" by blast
    with Some n1 n2 show ?thesis by blast
  qed
  from t [THEN conjunct2, THEN conjunct2, THEN conjunct2, THEN conjunct2, THEN conjunct1,
      rule_format, OF n]
  have second: "stationJob ?w2 7 ?st
     = \<lparr> discharge = [], waterTemp = [], gageHeight = [], siteName = None,
         forecast = [], source = None \<rparr>"
    by (simp add: fetchForecast_def truthy_def)
  from first second show ?thesis by simp
qed

subsection \<open>The refresh guard\<close>





lemma refresh_aborts_before_try:
  assumes "\<not> isRefreshing s"
    and "\<not> (has_refresh_btn w \<and> has_status_dot w \<and> has_status_label w)"
  shows "fst (refresh w s) = Threw ''TypeError'' \<and> isRefreshing (snd (refresh w s))"
  using assms by (auto simp: refresh_def setStatus_def Let_def)






text \<open>
  The hypothesis on the page is needed: the flag is set three statements before the
  \<open>try\<close> block opens. On a page without the element \<open>status-dot\<close>,
  \<open>setStatus('loading', ...)\<close> throws before the \<open>try\<close> block is entered, the \<open>finally\<close>
  block does not run, and the flag stays set; a later call is then refused.
\<close>

lemma refresh_aborts_example:
  "refresh
      \<lparr> fetchUSGS = (\<lambda>_ _. Inl ''offline''), fetchUSBR = (\<lambda>_ _. Inl ''offline''),
        fetchNWRFCTemp = (\<lambda>_ _. Inl ''offline''), fetchNWSForecast = (\<lambda>_. Inl ''offline''),
        fetchWindy = (\<lambda>_ _. Inl ''offline''),
        has_refresh_btn = True, has_status_dot = False, has_status_label = True,
        updateMapMarkers_throws = False, clock = 0 \<rparr>
      \<lparr> currentDays = 7, isRefreshing = False, lastRefresh = None, stationData = [],
        weatherData = [], spinning = False, status_class = '''', status_label = Initial \<rparr>
    = (Threw ''TypeError'',
       \<lparr> currentDays = 7, isRefreshing = True, lastRefresh = None, stationData = [],
         weatherData = [], spinning = True, status_class = '''', status_label = Initial \<rparr>)
   \<and> refresh
      \<lparr> fetchUSGS = (\<lambda>_ _. Inl ''offline''), fetchUSBR = (\<lambda>_ _. Inl ''offline''),
        fetchNWRFCTemp = (\<lambda>_ _. Inl ''offline''), fetchNWSForecast = (\<lambda>_. Inl ''offline''),
        fetchWindy = (\<lambda>_ _. Inl ''offline''),
        has_refresh_btn = True, has_status_dot = True, has_status_label = True,
        updateMapMarkers_throws = False, clock = 900000 \<rparr>
      \<lparr> currentDays = 7, isRefreshing = True, lastRefresh = None, stationData = [],
        weatherData = [], spinning = True, status_class = '''', status_label = Initial \<rparr>
    = (Normal,
       \<lparr> currentDays = 7, isRefreshing = True, lastRefresh = None, stationData = [],
         weatherData = [], spinning = True, status_class = '''', status_label = Initial \<rparr>)"
  by (simp add: refresh_def setStatus_def)

subsection \<open>The readings a refresh cycle stores\<close>

lemma map_of_assign: "map_of (assign k v ps) = (map_of ps)(k \<mapsto> v)"
  by (induction ps) (auto simp: fun_eq_iff)

lemma map_of_assign_all:
  assumes "distinct (map key sts)" and "st \<in> set sts"
  shows "map_of (foldl (\<lambda>m st. assign (key st) (f st) m) m0 sts) (key st) = Some (f st)"
  using assms
proof (induction sts arbitrary: m0 rule: rev_induct)
  case Nil
  then show ?case by simp
next
  case (snoc x xs)
  show ?case
  proof (cases "st = x")
    case True
    then show ?thesis by (simp add: map_of_assign)
  next
    case False
    with snoc.prems have mem: "st \<in> set xs" and d: "distinct (map key xs)"
      and nk: "key x \<notin> key ` set xs"
      by auto
    from mem have "key st \<in> key ` set xs" by (rule imageI)
    with nk have "key st \<noteq> key x" by metis
    with snoc.IH [OF d mem] show ?thesis by (simp add: map_of_assign)
  qed
qed

lemma STATIONS_distinct: "distinct (map stationId STATIONS)"
  by (simp add: STATIONS_def)

lemma runJobs_reading:
  assumes "st \<in> set STATIONS"
  shows "map_of (stationData (runJobs w days s)) (stationId st) = Some (stationJob w days st)"
  using map_of_assign_all [OF STATIONS_distinct assms, of "stationJob w days" "stationData s"]
  by (simp add: runJobs_def)

lemma setStatus_stationData: "stationData (snd (setStatus w level txt s)) = stationData s"
  by (simp add: setStatus_def Let_def)

text \<open>
  After a cycle that was entered (the flag clear, the three page elements present) the
  state holds, for every configured station, the reading its job produced with the
  number of days read at the start of the cycle.
\<close>

lemma refresh_stores_reading:
  assumes "\<not> isRefreshing s" and "has_refresh_btn w"
    and "has_status_dot w" and "has_status_label w" and "st \<in> set STATIONS"
  shows "map_of (stationData (snd (refresh w s))) (stationId st)
           = Some (stationJob w (currentDays s) st)"
proof -
  define s1 where "s1 = s \<lparr> isRefreshing := True, spinning := True \<rparr>"
  define s2 where "s2 = s1 \<lparr> status_class := ''status-dot '' @ ''loading'',
                             status_label := Fetching_data \<rparr>"
  have st: "setStatus w ''loading'' Fetching_data s1 = (Normal, s2)"
    using assms(3,4) by (simp add: setStatus_def Let_def s2_def)
  have days: "currentDays s2 = currentDays s" by (simp add: s2_def s1_def)
  obtain c3 s3 where tr: "refresh_try w (currentDays s) s2 = (c3, s3)"
    by (cases "refresh_try w (currentDays s) s2")
  have sd3: "stationData s3 = stationData (runJobs w (currentDays s) s2)"
  proof (cases "updateMapMarkers_throws w")
    case True
    with tr show ?thesis by (simp add: refresh_try_def Let_def)
  next
    case False
    with tr setStatus_stationData show ?thesis
      by (auto simp: refresh_try_def Let_def dest!: arg_cong [where f = snd])
  qed
  obtain c4 s4 where ca: "(case c3 of Normal \<Rightarrow> (Normal, s3)
      | Threw err \<Rightarrow> setStatus w ''error'' Refresh_failed s3) = (c4, s4)"
    by (cases "case c3 of Normal \<Rightarrow> (Normal, s3)
      | Threw err \<Rightarrow> setStatus w ''error'' Refresh_failed s3")
  have sd4: "stationData s4 = stationData s3"
  proof (cases c3)
    case Normal
    with ca show ?thesis by simp
  next
    case (Threw err)
    with ca have "s4 = snd (setStatus w ''error'' Refresh_failed s3)" by simp
    then show ?thesis by (simp add: setStatus_stationData)
  qed
  have "refresh w s = (c4, s4 \<lparr> isRefreshing := False, spinning := False \<rparr>)"
    using assms(1,2) st days tr ca
    by (simp add: refresh_def Let_def s1_def)
  then have "stationData (snd (refresh w s)) = stationData (runJobs w (currentDays s) s2)"
    by (simp add: sd4 sd3)
  with runJobs_reading [OF assms(5)] show ?thesis by simp
qed

subsection \<open>The CSV parser\<close>

lemma usbr_row_discharge_nonneg:
  assumes "\<forall>s \<in> set (discharge out). 0 \<le> val s"
  shows "\<forall>s \<in> set (discharge (usbr_row mkDate qIdx twIdx out line)). 0 \<le> val s"
  using assms
  by (auto simp: usbr_row_def Let_def split: option.splits if_splits)

lemma usbr_rows_discharge_nonneg:
  assumes "\<forall>s \<in> set (discharge out). 0 \<le> val s"
  shows "\<forall>s \<in> set (discharge (foldl (usbr_row mkDate qIdx twIdx) out rows)). 0 \<le> val s"
  using assms
proof (induction rows arbitrary: out)
  case Nil
  then show ?case by simp
next
  case (Cons r rows)
  from usbr_row_discharge_nonneg [OF Cons.prems]
  have "\<forall>s \<in> set (discharge (usbr_row mkDate qIdx twIdx out r)). 0 \<le> val s" .
  from Cons.IH [OF this] show ?case by simp
qed

lemma usbr_row_gageHeight: "gageHeight (usbr_row mkDate qIdx twIdx out line) = gageHeight out"
  by (simp add: usbr_row_def Let_def split: option.splits)

lemma usbr_rows_gageHeight:
  "gageHeight (foldl (usbr_row mkDate qIdx twIdx) out rows) = gageHeight out"
  by (induction rows arbitrary: out) (simp_all add: usbr_row_gageHeight)

lemma parseUSBRCSV_discharge_nonneg:
  "\<forall>s \<in> set (discharge (parseUSBRCSV mkDate txt stationLower)). 0 \<le> val s"
proof -
  have e: "\<forall>s \<in> set (discharge \<lparr> discharge = [], waterTemp = [], gageHeight = [] \<rparr>). 0 \<le> val s"
    by simp
  show ?thesis
    unfolding parseUSBRCSV_def Let_def
    using usbr_rows_discharge_nonneg [OF e] e
    by (simp split: option.splits)
qed

lemma usbr_row_negative:
  assumes "parseFloat_col (split CHR '','' line) q = Some v" and "v < 0"
  shows "discharge (usbr_row mkDate (Some q) twIdx out line) = discharge out"
  using assms
  by (simp add: usbr_row_def Let_def split: option.splits)

lemma usbr_row_skipped:
  assumes "length (split CHR '','' line) < 2 \<or> mkDate (trim (split CHR '','' line ! 0)) = None"
  shows "usbr_row mkDate qIdx twIdx out line = out"
  using assms by (auto simp: usbr_row_def Let_def)

lemma parseUSBRCSV_no_header:
  assumes "length (filter (\<lambda>l. l \<noteq> []) (map trim (split CHR 0x0A txt))) < 2
     \<or> findIndex (\<lambda>l. startsWith ''datetime'' (toLowerCase l))
          (filter (\<lambda>l. l \<noteq> []) (map trim (split CHR 0x0A txt))) = None"
  shows "parseUSBRCSV mkDate txt stationLower
           = \<lparr> discharge = [], waterTemp = [], gageHeight = [] \<rparr>"
  using assms by (auto simp: parseUSBRCSV_def Let_def)

lemma easw_lines:
  "filter (\<lambda>l. l \<noteq> [])
     (map trim (split CHR 0x0A ''DateTime,easw_q,easw_tw\<newline>2026-02-18 17:30,326.57,41.0''))
   = [''DateTime,easw_q,easw_tw'', ''2026-02-18 17:30,326.57,41.0'']"
  by (simp add: split_def trim_def is_space_def)

lemma easw_header:
  "map (\<lambda>h. toLowerCase (trim h)) (split CHR '','' ''DateTime,easw_q,easw_tw'')
   = [''datetime'', ''easw_q'', ''easw_tw'']"
  by (simp add: split_def trim_def is_space_def toLowerCase_def upper_case_def lower_case_def)

lemma easw_cols:
  "split CHR '','' ''2026-02-18 17:30,326.57,41.0'' = [''2026-02-18 17:30'', ''326.57'', ''41.0'']"
  by (simp add: split_def)

lemma easw_values:
  "parseFloat ''326.57'' = Some 326.57" "parseFloat ''41.0'' = Some 41"
  by (simp_all add: parseFloat_def read_sign_def read_exponent_def is_space_def is_digit_def
      digits_val_def digit_val_def Let_def)

lemma easw_example:
  assumes "mkDate ''2026-02-18 17:30'' = Some t"
  shows "parseUSBRCSV mkDate ''DateTime,easw_q,easw_tw\<newline>2026-02-18 17:30,326.57,41.0'' ''easw''
     = \<lparr> discharge = [\<lparr> time = t, val = 326.57 \<rparr>],
         waterTemp = [\<lparr> time = t, val = 105.8 \<rparr>], gageHeight = [] \<rparr>"
proof -
  have hdr: "findIndex (\<lambda>l. startsWith ''datetime'' (toLowerCase l))
      [''DateTime,easw_q,easw_tw'', ''2026-02-18 17:30,326.57,41.0''] = Some 0"
    by (simp add: startsWith_def toLowerCase_def upper_case_def lower_case_def)
  have q: "findIndex (\<lambda>h. h = ''easw'' @ ''_q'' \<or> endsWith ''_q'' h)
      [''datetime'', ''easw_q'', ''easw_tw''] = Some 1"
    by (simp add: startsWith_def endsWith_def)
  have tw: "findIndex (\<lambda>h. h = ''easw'' @ ''_tw'' \<or> endsWith ''_tw'' h)
      [''datetime'', ''easw_q'', ''easw_tw''] = Some 2"
    by (simp add: startsWith_def endsWith_def)
  have tr: "trim ''2026-02-18 17:30'' = ''2026-02-18 17:30''"
    by (simp add: trim_def is_space_def)
  have row: "usbr_row mkDate (Some 1) (Some 2)
      \<lparr> discharge = [], waterTemp = [], gageHeight = [] \<rparr> ''2026-02-18 17:30,326.57,41.0''
     = \<lparr> discharge = [\<lparr> time = t, val = 326.57 \<rparr>],
         waterTemp = [\<lparr> time = t, val = 105.8 \<rparr>], gageHeight = [] \<rparr>"
    using assms
    by (simp add: usbr_row_def easw_cols tr parseFloat_col_def easw_values)
  show ?thesis
    unfolding parseUSBRCSV_def easw_lines Let_def
    apply (simp only: hdr option.case nth_Cons_0 easw_header q tw)
    using row apply simp
    done
qed

text \<open>
  Claim C6. With the header \<open>DateTime,easw_q,easw_tw\<close>, the row
  \<open>2026-02-18 17:30,326.57,41.0\<close> and the station code \<open>easw\<close>, and a host that reads
  the row's timestamp as the time \<open>t\<close>, the parser returns one discharge sample of
  326.57 and one temperature sample of 105.8 at \<open>t\<close>, and no gage height. For every
  input no discharge sample is negative; a row whose discharge column reads below zero
  adds no discharge sample; a row with fewer than two columns or an unreadable
  timestamp adds nothing; and a text with fewer than two non-blank lines or without a
  header line yields three empty series. The function has no failing branch.
\<close>

theorem parseUSBRCSV_spec:
  "(mkDate ''2026-02-18 17:30'' = Some t \<longrightarrow>
      parseUSBRCSV mkDate ''DateTime,easw_q,easw_tw\<newline>2026-02-18 17:30,326.57,41.0'' ''easw''
        = \<lparr> discharge = [\<lparr> time = t, val = 326.57 \<rparr>],
            waterTemp = [\<lparr> time = t, val = 105.8 \<rparr>], gageHeight = [] \<rparr>)
   \<and> (\<forall>s \<in> set (discharge (parseUSBRCSV mkDate txt stationLower)). 0 \<le> val s)
   \<and> (parseFloat_col (split CHR '','' line) q = Some v \<and> v < 0 \<longrightarrow>
        discharge (usbr_row mkDate (Some q) twIdx out line) = discharge out)
   \<and> (length (split CHR '','' line) < 2 \<or> mkDate (trim (split CHR '','' line ! 0)) = None \<longrightarrow>
        usbr_row mkDate qIdx twIdx out line = out)
   \<and> (length (filter (\<lambda>l. l \<noteq> []) (map trim (split CHR 0x0A txt))) < 2
        \<or> findIndex (\<lambda>l. startsWith ''datetime'' (toLowerCase l))
             (filter (\<lambda>l. l \<noteq> []) (map trim (split CHR 0x0A txt))) = None \<longrightarrow>
        parseUSBRCSV mkDate txt stationLower
          = \<lparr> discharge = [], waterTemp = [], gageHeight = [] \<rparr>)"
proof (intro conjI impI)
  show "parseUSBRCSV mkDate ''DateTime,easw_q,easw_tw\<newline>2026-02-18 17:30,326.57,41.0'' ''easw''
        = \<lparr> discharge = [\<lparr> time = t, val = 326.57 \<rparr>],
            waterTemp = [\<lparr> time = t, val = 105.8 \<rparr>], gageHeight = [] \<rparr>"
    if "mkDate ''2026-02-18 17:30'' = Some t"
    using that by (rule easw_example)
  show "\<forall>s \<in> set (discharge (parseUSBRCSV mkDate txt stationLower)). 0 \<le> val s"
    by (rule parseUSBRCSV_discharge_nonneg)
  show "discharge (usbr_row mkDate (Some q) twIdx out line) = discharge out"
    if "parseFloat_col (split CHR '','' line) q = Some v \<and> v < 0"
    using that usbr_row_negative by blast
  show "usbr_row mkDate qIdx twIdx out line = out"
    if "length (split CHR '','' line) < 2 \<or> mkDate (trim (split CHR '','' line ! 0)) = None"
    using that by (rule usbr_row_skipped)
  show "parseUSBRCSV mkDate txt stationLower
          = \<lparr> discharge = [], waterTemp = [], gageHeight = [] \<rparr>"
    if "length (filter (\<lambda>l. l \<noteq> []) (map trim (split CHR 0x0A txt))) < 2
        \<or> findIndex (\<lambda>l. startsWith ''datetime'' (toLowerCase l))
             (filter (\<lambda>l. l \<noteq> []) (map trim (split CHR 0x0A txt))) = None"
    using that by (rule parseUSBRCSV_no_header)
qed

text \<open>
  A host that reads \<open>2026-02-18 17:30\<close> as Pacific time, and an error page in place of
  the CSV.
\<close>

theorem parseUSBRCSV_spec_witness:
  "parseUSBRCSV (\<lambda>s. if s = ''2026-02-18 17:30'' then Some 1771464600000 else None)
      ''DateTime,easw_q,easw_tw\<newline>2026-02-18 17:30,326.57,41.0'' ''easw''
     = \<lparr> discharge = [\<lparr> time = 1771464600000, val = 326.57 \<rparr>],
         waterTemp = [\<lparr> time = 1771464600000, val = 105.8 \<rparr>], gageHeight = [] \<rparr>
   \<and> parseUSBRCSV (\<lambda>s. if s = ''2026-02-18 17:30'' then Some 1771464600000 else None)
      ''<html>503 Service Unavailable</html>'' ''easw''
     = \<lparr> discharge = [], waterTemp = [], gageHeight = [] \<rparr>"
proof -
  let ?mk = "\<lambda>s. if s = ''2026-02-18 17:30'' then Some (1771464600000 :: int) else None"
  have d: "?mk ''2026-02-18 17:30'' = Some 1771464600000" by simp
  note spec = parseUSBRCSV_spec [of ?mk 1771464600000 "''<html>503 Service Unavailable</html>''" "''easw''"]
  have a: "parseUSBRCSV ?mk ''DateTime,easw_q,easw_tw\<newline>2026-02-18 17:30,326.57,41.0'' ''easw''
     = \<lparr> discharge = [\<lparr> time = 1771464600000, val = 326.57 \<rparr>],
         waterTemp = [\<lparr> time = 1771464600000, val = 105.8 \<rparr>], gageHeight = [] \<rparr>"
    using spec [THEN conjunct1, rule_format, OF d] .
  have short: "length (filter (\<lambda>l. l \<noteq> [])
      (map trim (split CHR 0x0A ''<html>503 Service Unavailable</html>''))) < 2"
    by (simp add: split_def)
  have b: "parseUSBRCSV ?mk ''<html>503 Service Unavailable</html>'' ''easw''
     = \<lparr> discharge = [], waterTemp = [], gageHeight = [] \<rparr>"
    using spec [THEN conjunct2, THEN conjunct2, THEN conjunct2, THEN conjunct2, rule_format,
        OF disjI1, OF short] .
  from a b show ?thesis by (rule conjI)
qed

subsection \<open>The two definitions of the CSV parser\<close>

lemma usbr_row_part000_eq: "usbr_row_part000 = usbr_row"
  by (intro ext) (simp add: usbr_row_part000_def usbr_row_def)

text \<open>
  Claim C9. The parser of \<open>app.js\<close> and the parser of the second source file return
  the same discharge, water temperature and gage height series on every text and
  station code (under the same host date parser).
\<close>

theorem parseUSBRCSV_files_agree:
  "parseUSBRCSV_part000 mkDate txt stationLower = parseUSBRCSV mkDate txt stationLower
   \<and> discharge (parseUSBRCSV_part000 mkDate txt stationLower)
       = discharge (parseUSBRCSV mkDate txt stationLower)
   \<and> waterTemp (parseUSBRCSV_part000 mkDate txt stationLower)
       = waterTemp (parseUSBRCSV mkDate txt stationLower)
   \<and> gageHeight (parseUSBRCSV_part000 mkDate txt stationLower)
       = gageHeight (parseUSBRCSV mkDate txt stationLower)"
proof -
  have "parseUSBRCSV_part000 mkDate txt stationLower = parseUSBRCSV mkDate txt stationLower"
    unfolding parseUSBRCSV_part000_def parseUSBRCSV_def usbr_row_part000_eq ..
  then show ?thesis by simp
qed

theorem parseUSBRCSV_files_agree_witness:
  "parseUSBRCSV_part000 (\<lambda>s. if s = ''2026-02-18 17:30'' then Some 1771464600000 else None)
      ''DateTime,easw_q,easw_tw\<newline>2026-02-18 17:30,326.57,41.0'' ''easw''
     = \<lparr> discharge = [\<lparr> time = 1771464600000, val = 326.57 \<rparr>],
         waterTemp = [\<lparr> time = 1771464600000, val = 105.8 \<rparr>], gageHeight = [] \<rparr>"
proof -
  let ?mk = "\<lambda>s. if s = ''2026-02-18 17:30'' then Some (1771464600000 :: int) else None"
  have d: "?mk ''2026-02-18 17:30'' = Some 1771464600000" by simp
  from parseUSBRCSV_files_agree [of ?mk
      "''DateTime,easw_q,easw_tw\<newline>2026-02-18 17:30,326.57,41.0''" "''easw''", THEN conjunct1]
    easw_example [of ?mk 1771464600000, OF d]
  show ?thesis by (rule trans)
qed

subsection \<open>The HTML temperature parser\<close>

lemma is_digit_plain:
  assumes "is_digit c"
  shows "\<not> is_space c" and "c \<noteq> CHR ''-''" and "c \<noteq> CHR ''+''"
  using assms by (auto simp: is_digit_def is_space_def)

lemma parseFloat_nonneg:
  assumes "parseFloat s = Some v" and "read_sign (dropWhile is_space s) = (False, s1)"
  shows "0 \<le> v"
  using assms by (auto simp: parseFloat_def Let_def split: if_splits)

lemma parseFloat_unsigned:
  assumes "parseFloat (c # cs) = Some v" and "is_digit c"
  shows "0 \<le> v"
proof -
  have "dropWhile is_space (c # cs) = c # cs"
    using is_digit_plain(1) [OF assms(2)] by simp
  moreover have "read_sign (c # cs) = (False, c # cs)"
    using is_digit_plain(2,3) [OF assms(2)] by (simp add: read_sign_def)
  ultimately have "read_sign (dropWhile is_space (c # cs)) = (False, c # cs)" by simp
  with assms(1) show ?thesis by (rule parseFloat_nonneg)
qed

lemma match_at_Some:
  assumes "match_at s = Some (m1, m2, n)"
  shows "is_timestamp m1 \<and> (\<exists>c cs. m2 = c # cs \<and> is_digit c)"
proof -
  define s2 where "s2 = drop (length cell_sep) (drop 16 s)"
  define ip where "ip = takeWhile is_digit s2"
  from assms have ts: "is_timestamp (take 16 s)" and m1: "m1 = take 16 s"
    and ne: "ip \<noteq> []" and m2: "\<exists>fp. m2 = ip @ fp"
    by (auto simp: match_at_def Let_def ip_def s2_def split: if_splits)
  from ne obtain c cs where ip: "ip = c # cs" by (cases ip) auto
  then have "c \<in> set (takeWhile is_digit s2)" by (simp add: ip_def)
  then have "is_digit c" by (rule set_takeWhileD [THEN conjunct2])
  with ip m2 ts m1 show ?thesis by auto
qed

lemma match_at_minus:
  assumes "is_timestamp m1"
  shows "match_at (m1 @ cell_sep @ CHR ''-'' # rest) = None"
proof -
  from assms have len: "length m1 = 16"
    by (auto simp: is_timestamp_def dest: list_all2_lengthD)
  have "\<not> is_digit CHR ''-''" by (simp add: is_digit_def)
  then show ?thesis
    using len by (simp add: match_at_def Let_def startsWith_def)
qed

lemma re_exec_all_matches:
  assumes "(m1, m2) \<in> set (re_exec_all k s)"
  shows "\<exists>s' n. match_at s' = Some (m1, m2, n)"
  using assms
proof (induction k s rule: re_exec_all.induct)
  case (1 k)
  then show ?case by simp
next
  case (2 k c cs)
  then show ?case by simp
next
  case (3 c cs)
  show ?case
  proof (cases "match_at (c # cs)")
    case None
    with 3 show ?thesis by simp
  next
    case (Some r)
    obtain a b n where r: "r = (a, b, n)" by (cases r)
    from "3.prems" Some r
    consider "(m1, m2) = (a, b)" | "(m1, m2) \<in> set (re_exec_all (n - 1) cs)"
      by auto
    then show ?thesis
    proof cases
      case 1
      with Some r show ?thesis by blast
    next
      case 2
      from "3.IH"(2) [OF Some r [symmetric] refl 2] show ?thesis .
    qed
  qed
qed

lemma nwrfc_push_inv:
  assumes "\<forall>s \<in> set out. 0 \<le> val s \<and> cutoff \<le> time s"
    and "\<exists>c cs. snd m = c # cs \<and> is_digit c"
  shows "\<forall>s \<in> set (nwrfc_push mkDate cutoff out m). 0 \<le> val s \<and> cutoff \<le> time s"
proof -
  obtain m1 m2 where m: "m = (m1, m2)" by (cases m)
  from assms(2) m obtain c cs where m2: "m2 = c # cs" "is_digit c" by auto
  have "0 \<le> v" if "parseFloat m2 = Some v" for v
    using that m2 parseFloat_unsigned by blast
  with assms(1) show ?thesis
    by (auto simp: nwrfc_push_def m split: option.splits)
qed

lemma nwrfc_fold_inv:
  assumes "\<forall>s \<in> set out. 0 \<le> val s \<and> cutoff \<le> time s"
    and "\<forall>m \<in> set ms. \<exists>c cs. snd m = c # cs \<and> is_digit c"
  shows "\<forall>s \<in> set (foldl (nwrfc_push mkDate cutoff) out ms). 0 \<le> val s \<and> cutoff \<le> time s"
  using assms
proof (induction ms arbitrary: out)
  case Nil
  then show ?case by simp
next
  case (Cons m ms)
  from Cons.prems(2) have "\<exists>c cs. snd m = c # cs \<and> is_digit c" by simp
  from nwrfc_push_inv [OF Cons.prems(1) this]
  have "\<forall>s \<in> set (nwrfc_push mkDate cutoff out m). 0 \<le> val s \<and> cutoff \<le> time s" .
  moreover from Cons.prems(2)
  have "\<forall>m \<in> set ms. \<exists>c cs. snd m = c # cs \<and> is_digit c" by simp
  ultimately show ?case using Cons.IH by simp
qed

text \<open>
  Claim C10. Every sample the parser emits has a value of at least zero and a time at
  or after the cutoff \<open>now - days * 86400000\<close>. Every value the pattern extracts begins
  with a digit, and the pattern does not match at a timestamp whose value cell begins
  with a minus sign, so a temperature below zero is dropped, not parsed.
\<close>

theorem parseNWRFCTempHTML_samples:
  "(\<forall>s \<in> set (parseNWRFCTempHTML mkDate now html days).
       0 \<le> val s \<and> now - int days * 86400000 \<le> time s)
   \<and> (\<forall>m \<in> set (re_exec_all 0 html).
         is_timestamp (fst m) \<and> (\<exists>c cs. snd m = c # cs \<and> is_digit c))
   \<and> (is_timestamp m1 \<longrightarrow> match_at (m1 @ cell_sep @ CHR ''-'' # rest) = None)"
proof (intro conjI impI)
  have ms: "is_timestamp (fst m) \<and> (\<exists>c cs. snd m = c # cs \<and> is_digit c)"
    if "m \<in> set (re_exec_all 0 html)" for m
  proof -
    obtain a b where m: "m = (a, b)" by (cases m)
    with that re_exec_all_matches [of a b 0 html]
    obtain s' n where "match_at s' = Some (a, b, n)" by blast
    from match_at_Some [OF this] m show ?thesis by simp
  qed
  then show "\<forall>m \<in> set (re_exec_all 0 html).
         is_timestamp (fst m) \<and> (\<exists>c cs. snd m = c # cs \<and> is_digit c)"
    by blast
  have "\<forall>s \<in> set ([] :: sample list). 0 \<le> val s \<and> now - int days * 86400000 \<le> time s"
    by simp
  moreover from ms have "\<forall>m \<in> set (re_exec_all 0 html). \<exists>c cs. snd m = c # cs \<and> is_digit c"
    by blast
  ultimately show "\<forall>s \<in> set (parseNWRFCTempHTML mkDate now html days).
       0 \<le> val s \<and> now - int days * 86400000 \<le> time s"
    unfolding parseNWRFCTempHTML_def Let_def by (rule nwrfc_fold_inv)
  show "match_at (m1 @ cell_sep @ CHR ''-'' # rest) = None" if "is_timestamp m1"
    using that by (rule match_at_minus)
qed

lemma re_exec_all_skip:
  assumes "0 < k"
  shows "re_exec_all k (c # cs) = re_exec_all (k - 1) cs"
  using assms by (cases k) simp_all

text \<open>
  Two table rows at 13:30 on 23 February 2026, one reading 41.9 and one reading -5.2,
  with the clock a little later and a window of seven days: the first yields its
  sample, the second yields nothing.
\<close>

theorem parseNWRFCTempHTML_samples_witness:
  "is_timestamp ''2026-02-23 13:30''
   \<and> match_at (''2026-02-23 13:30'' @ cell_sep @ CHR ''-'' # ''5.2</td>'') = None
   \<and> parseNWRFCTempHTML (\<lambda>s. if s = ''2026-02-23 13:30'' then Some 1771882200000 else None)
        1771900000000
        (''<td align='' @ [CHR 0x22] @ ''right'' @ [CHR 0x22] @ ''>2026-02-23 13:30''
           @ cell_sep @ ''-5.2</td>'') 7 = []
   \<and> parseNWRFCTempHTML (\<lambda>s. if s = ''2026-02-23 13:30'' then Some 1771882200000 else None)
        1771900000000
        (''<td align='' @ [CHR 0x22] @ ''right'' @ [CHR 0x22] @ ''>2026-02-23 13:30''
           @ cell_sep @ ''41.9</td>'') 7 = [\<lparr> time = 1771882200000, val = 41.9 \<rparr>]"
proof -
  have ts: "is_timestamp ''2026-02-23 13:30''"
    by (simp add: is_timestamp_def is_digit_def)
  from parseNWRFCTempHTML_samples [of _ _ _ _ "''2026-02-23 13:30''" "''5.2</td>''",
      THEN conjunct2, THEN conjunct2, rule_format, OF ts]
  have no: "match_at (''2026-02-23 13:30'' @ cell_sep @ CHR ''-'' # ''5.2</td>'') = None" .
  have neg: "re_exec_all 0 (''<td align='' @ [CHR 0x22] @ ''right'' @ [CHR 0x22]
      @ ''>2026-02-23 13:30'' @ cell_sep @ ''-5.2</td>'') = []"
    by (simp add: cell_sep_def match_at_def is_timestamp_def is_digit_def startsWith_def Let_def)
  have pos: "re_exec_all 0 (''<td align='' @ [CHR 0x22] @ ''right'' @ [CHR 0x22]
      @ ''>2026-02-23 13:30'' @ cell_sep @ ''41.9</td>'') = [(''2026-02-23 13:30'', ''41.9'')]"
    by (simp add: cell_sep_def match_at_def is_timestamp_def is_digit_def startsWith_def Let_def
        re_exec_all_skip)
  have v: "parseFloat ''41.9'' = Some 41.9"
    by (simp add: parseFloat_def read_sign_def read_exponent_def is_space_def is_digit_def
        digits_val_def digit_val_def Let_def)
  show ?thesis
    unfolding parseNWRFCTempHTML_def Let_def neg pos
    using ts no by (simp add: nwrfc_push_def v)
qed

end
